theory Spec2Isabelle
  imports Complex_Main "HOL-Library.Word"
begin

unbundle bit_operations_syntax

section \<open>Strings of the scripts\<close>

text \<open>
  The two index builders (\<^verbatim>\<open>build-rag-index.js\<close>, keyword mode, and
  \<^verbatim>\<open>build-rag-index-embeddings.js\<close>, embedding mode) work on JavaScript strings.
  A JavaScript string is a sequence of UTF-16 code units and \<^verbatim>\<open>.length\<close> counts them.
  The model takes a string as the list of its code units and covers the code units
  below 256, which \<^typ>\<open>char\<close> holds; \<^term>\<open>length\<close> is then \<^verbatim>\<open>.length\<close>.
  Numbers that the scripts compute with (lengths, indices, the chunk size) are
  integers; the value \<^verbatim>\<open>NaN\<close> that \<^verbatim>\<open>parseInt\<close> gives for a malformed
  \<^verbatim>\<open>--chunk-size\<close> is outside the model.
\<close>

definition is_space :: "char \<Rightarrow> bool" where
  \<comment> \<open>the class \<^verbatim>\<open>\s\<close> (white space and line terminators) below code unit 256:
      TAB, LF, VT, FF, CR, SPACE and NO-BREAK SPACE\<close>
  "is_space c = (of_char c \<in> {9, 10, 11, 12, 13, 32, 160 :: nat})"

definition is_line_terminator :: "char \<Rightarrow> bool" where
  \<comment> \<open>LF and CR: what \<^verbatim>\<open>.\<close> does not match and where \<^verbatim>\<open>^\<close>, \<^verbatim>\<open>$\<close> anchor under flag m\<close>
  "is_line_terminator c = (of_char c \<in> {10, 13 :: nat})"

definition trim :: "string \<Rightarrow> string" where
  \<comment> \<open>\<^verbatim>\<open>String.prototype.trim\<close>\<close>
  "trim s = rev (dropWhile is_space (rev (dropWhile is_space s)))"

definition js_join :: "string \<Rightarrow> string list \<Rightarrow> string" where
  \<comment> \<open>\<^verbatim>\<open>Array.prototype.join\<close> on an array of strings\<close>
  "js_join sep xs = (case xs of [] \<Rightarrow> [] | x # r \<Rightarrow> x @ concat (map (\<lambda>y. sep @ y) r))"

definition clamp_index :: "nat \<Rightarrow> int \<Rightarrow> nat" where
  \<comment> \<open>a relative index of \<^verbatim>\<open>slice\<close>: negative counts from the end, then clamped\<close>
  "clamp_index len k = (if k < 0 then nat (max (int len + k) 0) else min (nat k) len)"

definition js_slice :: "int \<Rightarrow> int \<Rightarrow> 'a list \<Rightarrow> 'a list" where
  \<comment> \<open>\<^verbatim>\<open>xs.slice(start, end)\<close>, for arrays and strings\<close>
  "js_slice start fin xs =
     (let k = clamp_index (length xs) start; e = clamp_index (length xs) fin
      in take (e - k) (drop k xs))"

definition js_slice_from :: "int \<Rightarrow> 'a list \<Rightarrow> 'a list" where
  \<comment> \<open>\<^verbatim>\<open>xs.slice(start)\<close>; \<^verbatim>\<open>slice(-0)\<close> is \<^verbatim>\<open>slice(0)\<close>, the whole array\<close>
  "js_slice_from start xs = drop (clamp_index (length xs) start) xs"

section \<open>Regular expressions\<close>

text \<open>
  The scripts' regular expressions are sequences of single characters or classes,
  repetitions of one class, anchors and a one-character lookbehind; alternation occurs
  at top level only. An expression is a list of alternatives, an alternative a list of
  atoms. \<open>rx_match\<close> is the backtracking matcher of JavaScript at one position: it gets
  the code unit before the position (for \<^verbatim>\<open>^\<close> and the lookbehind) and the rest of
  the string, and gives the length of the match together with the offsets of the
  \<open>Mark\<close> atoms passed, which delimit a capture group.
\<close>

datatype atom =
    One "char \<Rightarrow> bool"          \<comment> \<open>one character of a class\<close>
  | Greedy "char \<Rightarrow> bool" nat   \<comment> \<open>\<^verbatim>\<open>C{n,}\<close>: \<^verbatim>\<open>C*\<close> is \<open>Greedy C 0\<close>, \<^verbatim>\<open>C+\<close> is \<open>Greedy C 1\<close>\<close>
  | Lazy "char \<Rightarrow> bool" nat     \<comment> \<open>\<^verbatim>\<open>C{n,}?\<close>\<close>
  | Bol                         \<comment> \<open>\<^verbatim>\<open>^\<close> under flag m\<close>
  | Eol                         \<comment> \<open>\<^verbatim>\<open>$\<close> under flag m\<close>
  | Start                       \<comment> \<open>\<^verbatim>\<open>^\<close> without flag m\<close>
  | End                         \<comment> \<open>\<^verbatim>\<open>$\<close> without flag m\<close>
  | Behind "char \<Rightarrow> bool"       \<comment> \<open>\<^verbatim>\<open>(?<=C)\<close>\<close>
  | Mark                        \<comment> \<open>the parenthesis of a capture group\<close>

type_synonym regex = "atom list list"

type_synonym found = "nat \<times> nat list"

definition shift :: "found option \<Rightarrow> found option" where
  \<comment> \<open>the match continues after one more character\<close>
  "shift r = map_option (\<lambda>(n, ms). (Suc n, map Suc ms)) r"

fun rx_match :: "atom list \<Rightarrow> char option \<Rightarrow> string \<Rightarrow> found option" where
  "rx_match [] p s = Some (0, [])"
| "rx_match (One P # r) p [] = None"
| "rx_match (One P # r) p (c # s) = (if P c then shift (rx_match r (Some c) s) else None)"
| "rx_match (Greedy P (Suc n) # r) p [] = None"
| "rx_match (Greedy P (Suc n) # r) p (c # s) =
     (if P c then shift (rx_match (Greedy P n # r) (Some c) s) else None)"
| "rx_match (Greedy P 0 # r) p [] = rx_match r p []"
| "rx_match (Greedy P 0 # r) p (c # s) =
     (if P c
      then (case shift (rx_match (Greedy P 0 # r) (Some c) s) of
              Some m \<Rightarrow> Some m
            | None \<Rightarrow> rx_match r p (c # s))
      else rx_match r p (c # s))"
| "rx_match (Lazy P (Suc n) # r) p [] = None"
| "rx_match (Lazy P (Suc n) # r) p (c # s) =
     (if P c then shift (rx_match (Lazy P n # r) (Some c) s) else None)"
| "rx_match (Lazy P 0 # r) p [] = rx_match r p []"
| "rx_match (Lazy P 0 # r) p (c # s) =
     (case rx_match r p (c # s) of
        Some m \<Rightarrow> Some m
      | None \<Rightarrow> if P c then shift (rx_match (Lazy P 0 # r) (Some c) s) else None)"
| "rx_match (Bol # r) p s =
     (case p of None \<Rightarrow> rx_match r p s
      | Some q \<Rightarrow> if is_line_terminator q then rx_match r p s else None)"
| "rx_match (Eol # r) p s =
     (case s of [] \<Rightarrow> rx_match r p s
      | c # _ \<Rightarrow> if is_line_terminator c then rx_match r p s else None)"
| "rx_match (Start # r) p s = (case p of None \<Rightarrow> rx_match r p s | Some _ \<Rightarrow> None)"
| "rx_match (End # r) p s = (case s of [] \<Rightarrow> rx_match r p s | _ # _ \<Rightarrow> None)"
| "rx_match (Behind P # r) p s =
     (case p of None \<Rightarrow> None | Some q \<Rightarrow> if P q then rx_match r p s else None)"
| "rx_match (Mark # r) p s = map_option (\<lambda>(n, ms). (n, 0 # ms)) (rx_match r p s)"

fun rx_alt :: "regex \<Rightarrow> char option \<Rightarrow> string \<Rightarrow> found option" where
  \<comment> \<open>alternatives are tried in order\<close>
  "rx_alt [] p s = None"
| "rx_alt (a # as) p s = (case rx_match a p s of Some m \<Rightarrow> Some m | None \<Rightarrow> rx_alt as p s)"

definition group1 :: "string \<Rightarrow> nat list \<Rightarrow> string" where
  \<comment> \<open>the text of the capture group, \<^verbatim>\<open>$1\<close> and \<^verbatim>\<open>match[1]\<close>\<close>
  "group1 s ms = (case ms of a # b # _ \<Rightarrow> take (b - a) (drop a s) | _ \<Rightarrow> [])"

text \<open>
  None of the scripts' expressions matches the empty string. A match of length 0 is
  handled like no match at that position (the index moves on by one), which is what
  \<^verbatim>\<open>split\<close> does at the start of a piece and what keeps \<^verbatim>\<open>replace\<close> moving.
\<close>

function rx_split_from :: "regex \<Rightarrow> char option \<Rightarrow> string \<Rightarrow> string \<Rightarrow> string list" where
  "rx_split_from re p acc [] = [acc]"
| "rx_split_from re p acc (c # s) =
     (case rx_alt re p (c # s) of
        Some (Suc n, ms) \<Rightarrow>
          acc # rx_split_from re (Some (last (c # take n s))) [] (drop n s)
      | _ \<Rightarrow> rx_split_from re (Some c) (acc @ [c]) s)"
  by pat_completeness auto
termination
  by (relation "measure (\<lambda>(re, p, acc, s). length s)") auto

definition rx_split :: "regex \<Rightarrow> string \<Rightarrow> string list" where
  \<comment> \<open>\<^verbatim>\<open>s.split(re)\<close> for an expression without capture groups\<close>
  "rx_split re s = rx_split_from re None [] s"

function rx_replace_from ::
  "regex \<Rightarrow> (string \<Rightarrow> nat list \<Rightarrow> string) \<Rightarrow> char option \<Rightarrow> string \<Rightarrow> string" where
  "rx_replace_from re f p [] = []"
| "rx_replace_from re f p (c # s) =
     (case rx_alt re p (c # s) of
        Some (Suc n, ms) \<Rightarrow>
          f (c # take n s) ms @ rx_replace_from re f (Some (last (c # take n s))) (drop n s)
      | _ \<Rightarrow> c # rx_replace_from re f (Some c) s)"
  by pat_completeness auto
termination
  by (relation "measure (\<lambda>(re, f, p, s). length s)") auto

definition rx_replace_all :: "regex \<Rightarrow> (string \<Rightarrow> nat list \<Rightarrow> string) \<Rightarrow> string \<Rightarrow> string" where
  \<comment> \<open>\<^verbatim>\<open>s.replace(re, ...)\<close> with flag g; \<open>f\<close> maps the matched text and the marks
      to the replacement\<close>
  "rx_replace_all re f s = rx_replace_from re f None s"

fun rx_replace_first_from ::
  "regex \<Rightarrow> (string \<Rightarrow> nat list \<Rightarrow> string) \<Rightarrow> char option \<Rightarrow> string \<Rightarrow> string" where
  "rx_replace_first_from re f p [] = []"
| "rx_replace_first_from re f p (c # s) =
     (case rx_alt re p (c # s) of
        Some (Suc n, ms) \<Rightarrow> f (c # take n s) ms @ drop n s
      | _ \<Rightarrow> c # rx_replace_first_from re f (Some c) s)"

definition rx_replace_first :: "regex \<Rightarrow> (string \<Rightarrow> nat list \<Rightarrow> string) \<Rightarrow> string \<Rightarrow> string" where
  \<comment> \<open>\<^verbatim>\<open>s.replace(re, ...)\<close> without flag g: the leftmost match only\<close>
  "rx_replace_first re f s = rx_replace_first_from re f None s"

fun rx_test_from :: "regex \<Rightarrow> char option \<Rightarrow> string \<Rightarrow> bool" where
  "rx_test_from re p [] = (rx_alt re p [] \<noteq> None)"
| "rx_test_from re p (c # s) = (rx_alt re p (c # s) \<noteq> None \<or> rx_test_from re (Some c) s)"

definition rx_test :: "regex \<Rightarrow> string \<Rightarrow> bool" where
  \<comment> \<open>\<^verbatim>\<open>re.test(s)\<close>\<close>
  "rx_test re s = rx_test_from re None s"

definition erase :: "string \<Rightarrow> nat list \<Rightarrow> string" where
  \<comment> \<open>the replacement \<^verbatim>\<open>''\<close>\<close>
  "erase s ms = []"

definition chr :: "char \<Rightarrow> atom" where
  \<comment> \<open>a literal character\<close>
  "chr c = One (\<lambda>d. d = c)"

definition lit :: "string \<Rightarrow> atom list" where
  \<comment> \<open>a literal text\<close>
  "lit s = map chr s"

definition other_than :: "char \<Rightarrow> char \<Rightarrow> bool" where
  \<comment> \<open>the class \<^verbatim>\<open>[^c]\<close>\<close>
  "other_than c d = (d \<noteq> c)"

definition any_char :: "char \<Rightarrow> bool" where
  \<comment> \<open>\<^verbatim>\<open>[\s\S]\<close>\<close>
  "any_char c = True"

definition dot :: "char \<Rightarrow> bool" where
  \<comment> \<open>\<^verbatim>\<open>.\<close>\<close>
  "dot c = (\<not> is_line_terminator c)"

definition is_upper :: "char \<Rightarrow> bool" where
  \<comment> \<open>\<^verbatim>\<open>[A-Z]\<close>\<close>
  "is_upper c = (65 \<le> (of_char c :: nat) \<and> (of_char c :: nat) \<le> 90)"

definition is_lower :: "char \<Rightarrow> bool" where
  \<comment> \<open>\<^verbatim>\<open>[a-z]\<close>\<close>
  "is_lower c = (97 \<le> (of_char c :: nat) \<and> (of_char c :: nat) \<le> 122)"

definition is_digit :: "char \<Rightarrow> bool" where
  \<comment> \<open>\<^verbatim>\<open>[0-9]\<close>\<close>
  "is_digit c = (48 \<le> (of_char c :: nat) \<and> (of_char c :: nat) \<le> 57)"

definition is_alpha :: "char \<Rightarrow> bool" where
  \<comment> \<open>\<^verbatim>\<open>[a-zA-Z]\<close>\<close>
  "is_alpha c = (is_lower c \<or> is_upper c)"

section \<open>The chunker\<close>

definition is_terminator :: "char \<Rightarrow> bool" where
  \<comment> \<open>\<^verbatim>\<open>[.!?]\<close>\<close>
  "is_terminator c = (c = CHR ''.'' \<or> c = CHR ''!'' \<or> c = CHR ''?'')"

definition sentence_boundary :: regex where
  \<comment> \<open>\<^verbatim>\<open>/(?<=[.!?])\s+/\<close>\<close>
  "sentence_boundary = [[Behind is_terminator, Greedy is_space 1]]"

definition white_space :: regex where
  \<comment> \<open>\<^verbatim>\<open>/\s+/\<close>\<close>
  "white_space = [[Greedy is_space 1]]"

definition overlap_tail :: "int \<Rightarrow> string \<Rightarrow> string" where
  \<comment> \<open>\<^verbatim>\<open>currentChunk.split(/\s+/).slice(-Math.floor(overlap / 5)).join(' ')\<close>\<close>
  "overlap_tail overlap cur =
     js_join '' '' (js_slice_from (- (overlap div 5)) (rx_split white_space cur))"

definition chunk_step :: "int \<Rightarrow> int \<Rightarrow> string list \<times> string \<Rightarrow> string \<Rightarrow> string list \<times> string" where
  \<comment> \<open>one round of the loop over the sentences; the state is \<^verbatim>\<open>(chunks, currentChunk)\<close>\<close>
  "chunk_step chunkSize overlap st sentence =
     (case st of (chunks, currentChunk) \<Rightarrow>
        if int (length currentChunk) + int (length sentence) > chunkSize
           \<and> length currentChunk > 0
        then (chunks @ [trim currentChunk],
              overlap_tail overlap currentChunk @ '' '' @ sentence)
        else (chunks,
              currentChunk @ (if currentChunk \<noteq> [] then '' '' else []) @ sentence))"

definition splitIntoChunks :: "string \<Rightarrow> int \<Rightarrow> int \<Rightarrow> string list" where
  "splitIntoChunks content chunkSize overlap =
     (case foldl (chunk_step chunkSize overlap) ([], []) (rx_split sentence_boundary content) of
        (chunks, currentChunk) \<Rightarrow>
          if trim currentChunk \<noteq> [] then chunks @ [trim currentChunk] else chunks)"

definition splitIntoChunks_emb :: "string \<Rightarrow> int \<Rightarrow> int \<Rightarrow> string list" where
  \<comment> \<open>the copy in the embedding script; its test reads \<^verbatim>\<open>&& currentChunk\<close>\<close>
  "splitIntoChunks_emb content chunkSize overlap =
     (case foldl (\<lambda>st sentence. case st of (chunks, currentChunk) \<Rightarrow>
               if int (length currentChunk) + int (length sentence) > chunkSize
                  \<and> currentChunk \<noteq> []
               then (chunks @ [trim currentChunk],
                     overlap_tail overlap currentChunk @ '' '' @ sentence)
               else (chunks,
                     currentChunk @ (if currentChunk \<noteq> [] then '' '' else []) @ sentence))
             ([], []) (rx_split sentence_boundary content) of
        (chunks, currentChunk) \<Rightarrow>
          if trim currentChunk \<noteq> [] then chunks @ [trim currentChunk] else chunks)"

section \<open>Frontmatter\<close>

definition frontmatterRegex :: "atom list" where
  \<comment> \<open>\<^verbatim>\<open>/^---\s*\n([\s\S]*?)\n---\s*\n/\<close>\<close>
  "frontmatterRegex =
     Start # lit ''---'' @ [Greedy is_space 0, chr CHR 0x0A, Mark, Lazy any_char 0, Mark,
       chr CHR 0x0A] @ lit ''---'' @ [Greedy is_space 0, chr CHR 0x0A]"

definition indexOf :: "char \<Rightarrow> string \<Rightarrow> int" where
  \<comment> \<open>\<^verbatim>\<open>line.indexOf(c)\<close>: the first position, or -1\<close>
  "indexOf c s = (if c \<in> set s then int (length (takeWhile (\<lambda>d. d \<noteq> c) s)) else - 1)"

definition startsWith :: "string \<Rightarrow> string \<Rightarrow> bool" where
  "startsWith s pre = (take (length pre) s = pre)"

definition endsWith :: "string \<Rightarrow> string \<Rightarrow> bool" where
  "endsWith s suf = (length suf \<le> length s \<and> drop (length s - length suf) s = suf)"

definition unquote :: "string \<Rightarrow> string" where
  \<comment> \<open>keyword script, under the comment \<^verbatim>\<open>// Remove quotes\<close>\<close>
  "unquote v =
     (if (startsWith v [CHR 0x22] \<and> endsWith v [CHR 0x22])
         \<or> (startsWith v [CHR 0x27] \<and> endsWith v [CHR 0x27])
      then js_slice 1 (- 1) v else v)"

definition is_quote :: "char \<Rightarrow> bool" where
  \<comment> \<open>\<^verbatim>\<open>["']\<close>\<close>
  "is_quote c = (c = CHR 0x22 \<or> c = CHR 0x27)"

definition edge_quote :: regex where
  \<comment> \<open>\<^verbatim>\<open>/^["']|["']$/g\<close>\<close>
  "edge_quote = [[Start, One is_quote], [One is_quote, End]]"

definition unquote_emb :: "string \<Rightarrow> string" where
  \<comment> \<open>embedding script: \<^verbatim>\<open>.replace(/^["']|["']$/g, '')\<close>\<close>
  "unquote_emb v = rx_replace_all edge_quote erase v"

definition parse_line :: "(string \<Rightarrow> string) \<Rightarrow> string \<Rightarrow> (string \<times> string) option" where
  \<comment> \<open>the body of the loop over the lines: the key and the value that the line sets,
      if any; \<open>unq\<close> is the script's way of removing quotes\<close>
  "parse_line unq line =
     (let colonIndex = indexOf CHR '':'' line
      in if colonIndex > 0
         then Some (trim (js_slice 0 colonIndex line),
                    unq (trim (js_slice_from (colonIndex + 1) line)))
         else None)"

type_synonym metadata = "string \<rightharpoonup> string"

definition set_property :: "metadata \<Rightarrow> string \<Rightarrow> string \<Rightarrow> metadata" where
  \<comment> \<open>\<^verbatim>\<open>metadata[key] = value\<close> on an object literal: assigning a string to
      \<^verbatim>\<open>__proto__\<close> sets no property\<close>
  "set_property m k v = (if k = ''__proto__'' then m else m(k \<mapsto> v))"

definition parse_lines :: "(string \<Rightarrow> string) \<Rightarrow> string list \<Rightarrow> metadata" where
  "parse_lines unq ls =
     foldl (\<lambda>m line. case parse_line unq line of
                        None \<Rightarrow> m
                      | Some (k, v) \<Rightarrow> set_property m k v) Map.empty ls"

definition line_feed :: regex where
  \<comment> \<open>the separator of \<^verbatim>\<open>split('\n')\<close>\<close>
  "line_feed = [[chr CHR 0x0A]]"

definition parse_with :: "(string \<Rightarrow> string) \<Rightarrow> string \<Rightarrow> metadata \<times> string" where
  "parse_with unq content =
     (case rx_match frontmatterRegex None content of
        None \<Rightarrow> (Map.empty, content)
      | Some (n, ms) \<Rightarrow>
          (parse_lines unq (rx_split line_feed (group1 content ms)), drop n content))"

definition parseFrontmatter :: "string \<Rightarrow> metadata \<times> string" where
  \<comment> \<open>keyword script; the pair is \<^verbatim>\<open>{ metadata, content }\<close>\<close>
  "parseFrontmatter content = parse_with unquote content"

definition parseFrontmatter_emb :: "string \<Rightarrow> metadata \<times> string" where
  \<comment> \<open>embedding script\<close>
  "parseFrontmatter_emb content = parse_with unquote_emb content"

section \<open>Cleaning Markdown\<close>

definition tag_open :: "atom list" where
  \<comment> \<open>\<^verbatim>\<open><[A-Z][a-zA-Z]*[^>]*\<close>\<close>
  "tag_open = [chr CHR ''<'', One is_upper, Greedy is_alpha 0, Greedy (other_than CHR ''>'') 0]"

definition cleanMarkdownContent :: "string \<Rightarrow> string" where
  \<comment> \<open>\<^verbatim>\<open>cleanMarkdownContent\<close> of the keyword script and \<^verbatim>\<open>cleanMarkdown\<close> of the
      embedding script: the same chain of replacements\<close>
  "cleanMarkdownContent content =
     trim
      (rx_replace_all [[Greedy (\<lambda>c. c = CHR 0x0A) 3]] (\<lambda>s ms. [CHR 0x0A, CHR 0x0A])
      (rx_replace_all [tag_open @ [chr CHR ''>'', Lazy any_char 0, chr CHR ''<'', chr CHR ''/'',
                         One is_upper, Greedy is_alpha 0, chr CHR ''>'']] erase
      (rx_replace_all [tag_open @ [chr CHR ''/'', chr CHR ''>'']] erase
      (rx_replace_all [Bol # lit ''export'' @ [Greedy is_space 1, Greedy dot 0, Eol]] erase
      (rx_replace_all [Bol # lit ''import'' @ [Greedy is_space 1, Greedy dot 0, Eol]] erase
      (rx_replace_all [[chr CHR ''<'', Greedy (other_than CHR ''>'') 1, chr CHR ''>'']] erase
      (rx_replace_all [[chr CHR ''['', Mark, Greedy (other_than CHR '']'') 1, Mark, chr CHR '']'',
                        chr CHR ''('', Greedy (other_than CHR '')'') 1, chr CHR '')'']] group1
      (rx_replace_all [[chr CHR ''!'', chr CHR ''['', Lazy dot 0, chr CHR '']'', chr CHR ''('',
                        Lazy dot 0, chr CHR '')'']] erase
      (rx_replace_all [[chr CHR 0x60, Greedy (other_than CHR 0x60) 1, chr CHR 0x60]] erase
      (rx_replace_all [lit [CHR 0x60, CHR 0x60, CHR 0x60] @ Lazy any_char 0
                         # lit [CHR 0x60, CHR 0x60, CHR 0x60]] erase
         content))))))))))"

section \<open>Chunk identifiers\<close>

text \<open>
  \<^verbatim>\<open>crypto.createHash('md5').update(text).digest('hex')\<close> is the MD5 digest (RFC 1321)
  of the UTF-8 encoding of the text, as 32 lower-case hexadecimal digits.
\<close>

definition utf8 :: "string \<Rightarrow> 8 word list" where
  "utf8 s = concat (map (\<lambda>c. let n = (of_char c :: nat) in
       if n < 128 then [of_nat n] else [of_nat (192 + n div 64), of_nat (128 + n mod 64)]) s)"

definition md5_shift :: "nat list" where
  "md5_shift = concat (map (\<lambda>r. r @ r @ r @ r)
     [[7, 12, 17, 22], [5, 9, 14, 20], [4, 11, 16, 23], [6, 10, 15, 21]])"

definition md5_sine :: "32 word list" where
  "md5_sine =
    [0xd76aa478, 0xe8c7b756, 0x242070db, 0xc1bdceee,
     0xf57c0faf, 0x4787c62a, 0xa8304613, 0xfd469501,
     0x698098d8, 0x8b44f7af, 0xffff5bb1, 0x895cd7be,
     0x6b901122, 0xfd987193, 0xa679438e, 0x49b40821,
     0xf61e2562, 0xc040b340, 0x265e5a51, 0xe9b6c7aa,
     0xd62f105d, 0x02441453, 0xd8a1e681, 0xe7d3fbc8,
     0x21e1cde6, 0xc33707d6, 0xf4d50d87, 0x455a14ed,
     0xa9e3e905, 0xfcefa3f8, 0x676f02d9, 0x8d2a4c8a,
     0xfffa3942, 0x8771f681, 0x6d9d6122, 0xfde5380c,
     0xa4beea44, 0x4bdecfa9, 0xf6bb4b60, 0xbebfbc70,
     0x289b7ec6, 0xeaa127fa, 0xd4ef3085, 0x04881d05,
     0xd9d4d039, 0xe6db99e5, 0x1fa27cf8, 0xc4ac5665,
     0xf4292244, 0x432aff97, 0xab9423a7, 0xfc93a039,
     0x655b59c3, 0x8f0ccc92, 0xffeff47d, 0x85845dd1,
     0x6fa87e4f, 0xfe2ce6e0, 0xa3014314, 0x4e0811a1,
     0xf7537e82, 0xbd3af235, 0x2ad7d2bb, 0xeb86d391]"

definition md5_pad :: "8 word list \<Rightarrow> 8 word list" where
  \<comment> \<open>the bit 1, zeros up to 56 modulo 64 bytes, the length in bits as 64 bits, low byte first\<close>
  "md5_pad bs =
     (let n = length bs
      in bs @ [0x80] @ replicate ((119 - n mod 64) mod 64) 0
            @ map (\<lambda>i. ucast (drop_bit (8 * i) (of_nat (8 * n) :: 64 word))) [0..<8])"

definition le_word :: "8 word list \<Rightarrow> 32 word" where
  "le_word bs = foldr (\<lambda>b w. push_bit 8 w + ucast b) bs 0"

fun blocks :: "nat \<Rightarrow> nat \<Rightarrow> 'a list \<Rightarrow> 'a list list" where
  "blocks k 0 xs = []"
| "blocks k (Suc n) xs = take k xs # blocks k n (drop k xs)"

type_synonym md5_state = "32 word \<times> 32 word \<times> 32 word \<times> 32 word"

definition md5_round :: "32 word list \<Rightarrow> md5_state \<Rightarrow> nat \<Rightarrow> md5_state" where
  "md5_round m st i =
     (case st of (a, b, c, d) \<Rightarrow>
        let (f, g) =
              (if i < 16 then ((b AND c) OR (NOT b AND d), i)
               else if i < 32 then ((d AND b) OR (NOT d AND c), (5 * i + 1) mod 16)
               else if i < 48 then (b XOR c XOR d, (3 * i + 5) mod 16)
               else (c XOR (b OR NOT d), (7 * i) mod 16));
            f' = f + a + md5_sine ! i + m ! g
        in (d, b + word_rotl (md5_shift ! i) f', b, c))"

definition md5_block :: "md5_state \<Rightarrow> 8 word list \<Rightarrow> md5_state" where
  "md5_block st blk =
     (case st of (a0, b0, c0, d0) \<Rightarrow>
        case foldl (md5_round (map le_word (blocks 4 16 blk))) st [0..<64] of
          (a, b, c, d) \<Rightarrow> (a0 + a, b0 + b, c0 + c, d0 + d))"

definition hex_digit :: "nat \<Rightarrow> char" where
  "hex_digit n = ''0123456789abcdef'' ! (n mod 16)"

definition hex_byte :: "8 word \<Rightarrow> string" where
  "hex_byte b = [hex_digit (unat b div 16), hex_digit (unat b)]"

definition word_bytes :: "32 word \<Rightarrow> 8 word list" where
  "word_bytes w = map (\<lambda>i. ucast (drop_bit (8 * i) w)) [0..<4]"

definition md5_hex :: "string \<Rightarrow> string" where
  "md5_hex s =
     (let bs = md5_pad (utf8 s)
      in case foldl md5_block (0x67452301, 0xefcdab89, 0x98badcfe, 0x10325476)
                (blocks 64 (length bs div 64) bs) of
           (a, b, c, d) \<Rightarrow> concat (map hex_byte (concat (map word_bytes [a, b, c, d]))))"

fun decimal :: "nat \<Rightarrow> string" where
  \<comment> \<open>a non-negative integer in a template literal\<close>
  "decimal n = (if n < 10 then [hex_digit n] else decimal (n div 10) @ [hex_digit (n mod 10)])"

declare decimal.simps [simp del]

definition generateChunkId :: "string \<Rightarrow> nat \<Rightarrow> string" where
  \<comment> \<open>the function of the keyword script, and the same expression written out in
      \<^verbatim>\<open>processFile\<close> of the embedding script\<close>
  "generateChunkId filePath chunkIndex =
     js_slice 0 8 (md5_hex (filePath @ ''-'' @ decimal chunkIndex))"

section \<open>Keywords\<close>

definition stopWords :: "string list" where
  "stopWords =
    [''the'', ''a'', ''an'', ''and'', ''or'', ''but'', ''in'', ''on'', ''at'', ''to'', ''for'',
     ''of'', ''with'', ''by'', ''from'', ''as'', ''is'', ''was'', ''are'', ''were'', ''been'',
     ''be'', ''have'', ''has'', ''had'', ''do'', ''does'', ''did'', ''will'', ''would'', ''could'',
     ''should'', ''may'', ''might'', ''must'', ''shall'', ''can'', ''this'', ''that'', ''these'',
     ''those'', ''i'', ''you'', ''he'', ''she'', ''it'', ''we'', ''they'', ''what'', ''which'',
     ''who'', ''when'', ''where'', ''why'', ''how'', ''all'', ''each'', ''every'', ''both'',
     ''few'', ''more'', ''most'', ''other'', ''some'', ''such'', ''no'', ''not'', ''only'',
     ''own'', ''same'', ''so'', ''than'', ''too'', ''very'', ''just'', ''also'', ''now'']"

definition toLowerCase :: "string \<Rightarrow> string" where
  \<comment> \<open>below code unit 256 the letters with a lower case are A to Z and the accented
      capitals 192 to 222 (not the multiplication sign 215); each moves up by 32\<close>
  "toLowerCase s =
     map (\<lambda>c. let n = (of_char c :: nat)
              in if (65 \<le> n \<and> n \<le> 90) \<or> (192 \<le> n \<and> n \<le> 222 \<and> n \<noteq> 215)
                 then char_of (n + 32) else c) s"

definition not_word_char :: regex where
  \<comment> \<open>\<^verbatim>\<open>/[^a-z0-9\s]/g\<close>\<close>
  "not_word_char = [[One (\<lambda>c. \<not> (is_lower c \<or> is_digit c \<or> is_space c))]]"

definition keyword_words :: "string \<Rightarrow> string list" where
  \<comment> \<open>the array \<^verbatim>\<open>words\<close>\<close>
  "keyword_words content =
     filter (\<lambda>word. length word > 2 \<and> word \<notin> set stopWords)
       (rx_split white_space (rx_replace_all not_word_char erase (toLowerCase content)))"

text \<open>
  \<^verbatim>\<open>frequency\<close> is an object literal, so it inherits from \<^verbatim>\<open>Object.prototype\<close>. Of
  the inherited property names only \<^verbatim>\<open>constructor\<close> is made of lower-case letters
  and digits: for that word \<^verbatim>\<open>frequency[word] || 0\<close> is the function \<^verbatim>\<open>Object\<close>,
  and adding 1 gives a string. A property value is therefore a count or a string.
  The own properties are listed in creation order.
\<close>

datatype fval = Num nat | Str string

type_synonym entry = "string \<times> fval"

definition object_source :: string where
  \<comment> \<open>\<^verbatim>\<open>String(Object)\<close>\<close>
  "object_source = ''function Object() { [native code] }''"

definition plus_one :: "fval \<Rightarrow> fval" where
  \<comment> \<open>\<^verbatim>\<open>(v || 0) + 1\<close>\<close>
  "plus_one v = (case v of Num n \<Rightarrow> Num (n + 1)
                 | Str t \<Rightarrow> if t = [] then Num 1 else Str (t @ ''1''))"

definition count_word :: "entry list \<Rightarrow> string \<Rightarrow> entry list" where
  \<comment> \<open>\<^verbatim>\<open>frequency[word] = (frequency[word] || 0) + 1\<close>\<close>
  "count_word frequency word =
     (case map_of frequency word of
        Some v \<Rightarrow> map (\<lambda>(k, u). if k = word then (k, plus_one u) else (k, u)) frequency
      | None \<Rightarrow>
          frequency @ [(word, if word = ''constructor'' then plus_one (Str object_source)
                              else plus_one (Num 0))])"

definition index_value :: "string \<Rightarrow> int" where
  \<comment> \<open>the number that a string of digits denotes\<close>
  "index_value w = foldl (\<lambda>n c. 10 * n + (of_char c - 48)) 0 w"

definition is_array_index :: "string \<Rightarrow> bool" where
  \<comment> \<open>a property name that is the canonical numeral of an integer below \<open>2^32 - 1\<close>\<close>
  "is_array_index w =
     (w \<noteq> [] \<and> list_all is_digit w \<and> (hd w \<noteq> CHR ''0'' \<or> w = ''0'')
      \<and> index_value w < 4294967295)"

definition entries :: "entry list \<Rightarrow> entry list" where
  \<comment> \<open>\<^verbatim>\<open>Object.entries\<close>: the array indices in ascending order, then the other names
      in creation order\<close>
  "entries frequency =
     sort_key (\<lambda>e. index_value (fst e)) (filter (\<lambda>e. is_array_index (fst e)) frequency)
     @ filter (\<lambda>e. \<not> is_array_index (fst e)) frequency"

definition by_count :: "entry \<Rightarrow> entry \<Rightarrow> int option" where
  \<comment> \<open>the comparator \<^verbatim>\<open>(a, b) => b[1] - a[1]\<close>; \<open>None\<close> is \<^verbatim>\<open>NaN\<close>\<close>
  "by_count a b =
     (case (snd b, snd a) of (Num y, Num x) \<Rightarrow> Some (int y - int x) | _ \<Rightarrow> None)"

definition sort_compare :: "entry \<Rightarrow> entry \<Rightarrow> int" where
  \<comment> \<open>the comparison that \<^verbatim>\<open>sort\<close> makes: \<^verbatim>\<open>NaN\<close> counts as 0\<close>
  "sort_compare a b = (case by_count a b of None \<Rightarrow> 0 | Some d \<Rightarrow> d)"

fun insert_by :: "('a \<Rightarrow> 'a \<Rightarrow> int) \<Rightarrow> 'a \<Rightarrow> 'a list \<Rightarrow> 'a list" where
  "insert_by cmp x [] = [x]"
| "insert_by cmp x (y # ys) = (if cmp x y \<le> 0 then x # y # ys else y # insert_by cmp x ys)"

definition stable_sort :: "('a \<Rightarrow> 'a \<Rightarrow> int) \<Rightarrow> 'a list \<Rightarrow> 'a list" where
  "stable_sort cmp xs = foldr (insert_by cmp) xs []"

definition is_num :: "entry \<Rightarrow> bool" where
  "is_num e = (case snd e of Num _ \<Rightarrow> True | Str _ \<Rightarrow> False)"

definition consistent :: "entry list \<Rightarrow> bool" where
  \<comment> \<open>the comparator is consistent on the entries: a string value compares equal to
      every count, so with one present all counts must be equal\<close>
  "consistent es =
     (list_all is_num es \<or> length (remdups (map snd (filter is_num es))) \<le> 1)"

type_synonym engine = "entry list \<Rightarrow> entry list"

definition js_sort :: "engine \<Rightarrow> entry list \<Rightarrow> entry list" where
  \<comment> \<open>\<^verbatim>\<open>Array.prototype.sort\<close>: stable, and by the comparator when that is consistent;
      otherwise the order is left to the JavaScript engine, the parameter \<open>engine\<close>\<close>
  "js_sort engine es = (if consistent es then stable_sort sort_compare es else engine es)"

definition extractKeywords :: "engine \<Rightarrow> string \<Rightarrow> int \<Rightarrow> string list" where
  "extractKeywords engine content maxKeywords =
     map fst (js_slice 0 maxKeywords
       (js_sort engine (entries (foldl count_word [] (keyword_words content)))))"

section \<open>Paths and the file system\<close>

text \<open>
  The functions of Node's \<^verbatim>\<open>path\<close> module that the scripts call, for POSIX paths.
  \<open>cwd\<close> is the absolute path of the working directory.
\<close>

definition slash :: regex where
  "slash = [[chr CHR ''/'']]"

fun normalize_parts :: "bool \<Rightarrow> string list \<Rightarrow> string list \<Rightarrow> string list" where
  \<comment> \<open>drops empty parts and \<^verbatim>\<open>.\<close>, lets \<^verbatim>\<open>..\<close> take back a part; above the start
      \<^verbatim>\<open>..\<close> is kept only where \<open>up\<close> allows it (relative paths)\<close>
  "normalize_parts up acc [] = acc"
| "normalize_parts up acc (x # xs) =
     (if x = [] \<or> x = ''.'' then normalize_parts up acc xs
      else if x = ''..''
      then (if acc \<noteq> [] \<and> last acc \<noteq> ''..'' then normalize_parts up (butlast acc) xs
            else if up then normalize_parts up (acc @ [x]) xs
            else normalize_parts up acc xs)
      else normalize_parts up (acc @ [x]) xs)"

definition path_normalize :: "string \<Rightarrow> string" where
  "path_normalize p =
     (let absolute = startsWith p ''/'' \<and> p \<noteq> [];
          trailing = endsWith p ''/'' \<and> p \<noteq> [];
          n = js_join ''/'' (normalize_parts (\<not> absolute) [] (rx_split slash p))
      in if n = [] then (if absolute then ''/'' else if trailing then ''./'' else ''.'')
         else (if absolute then ''/'' else []) @ n @ (if trailing then ''/'' else []))"

definition path_join :: "string \<Rightarrow> string \<Rightarrow> string" where
  \<comment> \<open>\<^verbatim>\<open>path.join(a, b)\<close>\<close>
  "path_join a b =
     (if a = [] \<and> b = [] then ''.''
      else path_normalize (if a = [] then b else if b = [] then a else a @ ''/'' @ b))"

definition resolved_parts :: "string \<Rightarrow> string \<Rightarrow> string list" where
  "resolved_parts cwd p =
     normalize_parts False [] (rx_split slash (if startsWith p ''/'' \<and> p \<noteq> [] then p else cwd @ ''/'' @ p))"

definition path_resolve :: "string \<Rightarrow> string \<Rightarrow> string" where
  \<comment> \<open>\<^verbatim>\<open>path.resolve(p)\<close>\<close>
  "path_resolve cwd p = ''/'' @ js_join ''/'' (resolved_parts cwd p)"

fun strip_common :: "'a list \<Rightarrow> 'a list \<Rightarrow> 'a list \<times> 'a list" where
  "strip_common (x # xs) (y # ys) = (if x = y then strip_common xs ys else (x # xs, y # ys))"
| "strip_common xs ys = (xs, ys)"

definition path_relative :: "string \<Rightarrow> string \<Rightarrow> string \<Rightarrow> string" where
  \<comment> \<open>\<^verbatim>\<open>path.relative(from, to)\<close>\<close>
  "path_relative cwd from to =
     (case strip_common (resolved_parts cwd from) (resolved_parts cwd to) of
        (f, t) \<Rightarrow> js_join ''/'' (replicate (length f) ''..'' @ t))"

definition last_part :: "string \<Rightarrow> string" where
  \<comment> \<open>the last part of a path, trailing slashes aside\<close>
  "last_part p =
     (let q = rev (dropWhile (\<lambda>c. c = CHR ''/'') (rev p))
      in rev (takeWhile (\<lambda>c. c \<noteq> CHR ''/'') (rev q)))"

definition path_extname :: "string \<Rightarrow> string" where
  \<comment> \<open>\<^verbatim>\<open>path.extname(p)\<close>: from the last dot of the last part; nothing when there is no
      dot, the dot comes first, or the part is \<^verbatim>\<open>..\<close>\<close>
  "path_extname p =
     (let base = last_part p;
          ext = rev (takeWhile (\<lambda>c. c \<noteq> CHR ''.'') (rev base))
      in if CHR ''.'' \<notin> set base \<or> length ext + 1 = length base \<or> base = ''..'' then []
         else CHR ''.'' # ext)"

definition path_basename :: "string \<Rightarrow> string \<Rightarrow> string" where
  \<comment> \<open>\<^verbatim>\<open>path.basename(p, ext)\<close>, for an \<open>ext\<close> that \<^verbatim>\<open>path.extname(p)\<close> gave\<close>
  "path_basename p ext =
     (let base = last_part p
      in if ext \<noteq> [] \<and> endsWith base ext \<and> base \<noteq> ext
         then take (length base - length ext) base else base)"

datatype dirent =
    FileEnt string                  \<comment> \<open>a regular file and its name\<close>
  | DirEnt string "dirent list"     \<comment> \<open>a directory, its name and its entries\<close>
  | OtherEnt string                 \<comment> \<open>neither\<close>

record env =
  cwd :: string
  readdirSync :: "string \<Rightarrow> dirent list option"
    \<comment> \<open>the entries of the directory at a path; \<open>None\<close> when \<^verbatim>\<open>existsSync\<close> is false\<close>
  readFileSync :: "string \<Rightarrow> string option"
    \<comment> \<open>the text of the file at a path; \<open>None\<close> when reading throws\<close>

definition markdown_name :: regex where
  \<comment> \<open>\<^verbatim>\<open>/\.(md|mdx)$/i\<close>, the two alternatives of the group written out\<close>
  "markdown_name =
     (let m = One (\<lambda>c. c = CHR ''m'' \<or> c = CHR ''M'');
          d = One (\<lambda>c. c = CHR ''d'' \<or> c = CHR ''D'');
          x = One (\<lambda>c. c = CHR ''x'' \<or> c = CHR ''X'')
      in [[chr CHR ''.'', m, d, End], [chr CHR ''.'', m, d, x, End]])"

fun walk :: "string \<Rightarrow> dirent list \<Rightarrow> string list \<Rightarrow> string list" where
  \<comment> \<open>the loop of \<^verbatim>\<open>findMarkdownFiles\<close> over the entries of an existing directory\<close>
  "walk dir [] files = files"
| "walk dir (FileEnt name # es) files =
     walk dir es (if rx_test markdown_name name then files @ [path_join dir name] else files)"
| "walk dir (DirEnt name sub # es) files =
     walk dir es (walk (path_join dir name) sub files)"
| "walk dir (OtherEnt name # es) files = walk dir es files"

definition findMarkdownFiles :: "env \<Rightarrow> string \<Rightarrow> string list" where
  "findMarkdownFiles e dir = (case readdirSync e dir of None \<Rightarrow> [] | Some es \<Rightarrow> walk dir es [])"

section \<open>Processing a file\<close>

record config =
  docsDir :: string
  blogDir :: string
  outputFile :: string
  chunkSize :: int
  chunkOverlap :: int

record chunk =
  chunk_id :: string            \<comment> \<open>the field \<^verbatim>\<open>id\<close>\<close>
  source :: string
  slug :: string
  title :: string
  content :: string
  chunkIndex :: nat
  totalChunks :: nat

record kw_chunk = chunk +
  section_label :: string       \<comment> \<open>the field \<^verbatim>\<open>section\<close>\<close>
  keyword_list :: "string list"   \<comment> \<open>the field \<^verbatim>\<open>keywords\<close>\<close>

text \<open>
  The field \<^verbatim>\<open>embedding\<close> of a chunk of the embedding script starts as \<^verbatim>\<open>null\<close> and
  is then set to whatever the response of the embedding service holds. A response is
  JSON text, of which \<^verbatim>\<open>JSON.parse\<close> makes a value of JavaScript: \<^verbatim>\<open>null\<close>, a boolean,
  a number, a string, an array, or an object, given by the list of its properties
  (under distinct names). \<^verbatim>\<open>undefined\<close> is what reading a missing property gives. The
  type \<open>'n\<close> of the numbers is left open.
\<close>

datatype 'n jsvalue =
    JUndefined
  | JNull
  | JBool bool
  | JNum 'n
  | JStr string
  | JArr "'n jsvalue list"
  | JObj "(string \<times> 'n jsvalue) list"

record 'n emb_chunk = chunk +
  embedding :: "'n jsvalue"

datatype failure =
    Exit nat          \<comment> \<open>\<^verbatim>\<open>process.exit(code)\<close>\<close>
  | ReadFailed string \<comment> \<open>\<^verbatim>\<open>readFileSync\<close> threw; the error reaches \<^verbatim>\<open>main().catch\<close>\<close>

definition or_else :: "string option \<Rightarrow> string \<Rightarrow> string" where
  \<comment> \<open>\<^verbatim>\<open>a || b\<close> for a property \<open>a\<close> that is a string or undefined\<close>
  "or_else a b = (case a of None \<Rightarrow> b | Some v \<Rightarrow> if v = [] then b else v)"

definition forward_slashes :: "string \<Rightarrow> string" where
  \<comment> \<open>\<^verbatim>\<open>.replace(/\\/g, '/')\<close>\<close>
  "forward_slashes p = rx_replace_all [[chr CHR 0x5C]] (\<lambda>s ms. ''/'') p"

definition slug_of :: "string \<Rightarrow> string" where
  "slug_of relativePath =
     rx_replace_first [lit ''/index'' @ [End]] erase
       (rx_replace_first markdown_name erase (forward_slashes relativePath))"

definition processFile :: "engine \<Rightarrow> env \<Rightarrow> string \<Rightarrow> config \<Rightarrow> string \<Rightarrow> failure + kw_chunk list" where
  \<comment> \<open>keyword script\<close>
  "processFile engine e filePath cfg baseDir =
     (case readFileSync e filePath of
        None \<Rightarrow> Inl (ReadFailed filePath)
      | Some text \<Rightarrow>
          (case parseFrontmatter text of (metadata, bodyContent) \<Rightarrow>
             let cleanedContent = cleanMarkdownContent bodyContent
             in if cleanedContent = [] \<or> length cleanedContent < 50 then Inr []
                else
                  let relativePath = path_relative (cwd e) baseDir filePath;
                      chunks = splitIntoChunks cleanedContent (chunkSize cfg) (chunkOverlap cfg)
                  in Inr (map (\<lambda>(index, chunk).
                       \<lparr> chunk_id = generateChunkId filePath index,
                         source = forward_slashes relativePath,
                         slug = slug_of relativePath,
                         title = or_else (metadata ''title'')
                                   (path_basename filePath (path_extname filePath)),
                         content = chunk,
                         chunkIndex = index,
                         totalChunks = length chunks,
                         section_label = or_else (metadata ''sidebar_label'')
                                           (or_else (metadata ''title'') []),
                         keyword_list = extractKeywords engine chunk 10 \<rparr>)
                       (enumerate 0 chunks))))"

definition processFile_emb :: "env \<Rightarrow> string \<Rightarrow> config \<Rightarrow> string \<Rightarrow> failure + 'n emb_chunk list" where
  \<comment> \<open>embedding script\<close>
  "processFile_emb e filePath cfg baseDir =
     (case readFileSync e filePath of
        None \<Rightarrow> Inl (ReadFailed filePath)
      | Some text \<Rightarrow>
          (case parseFrontmatter_emb text of (metadata, body) \<Rightarrow>
             let cleaned = cleanMarkdownContent body
             in if cleaned = [] \<or> length cleaned < 50 then Inr []
                else
                  let relativePath = path_relative (cwd e) baseDir filePath;
                      chunks = splitIntoChunks_emb cleaned (chunkSize cfg) (chunkOverlap cfg)
                  in Inr (map (\<lambda>(index, chunk).
                       \<lparr> chunk_id = js_slice 0 8 (md5_hex (filePath @ ''-'' @ decimal index)),
                         source = forward_slashes relativePath,
                         slug = slug_of relativePath,
                         title = or_else (metadata ''title'')
                                   (path_basename filePath (path_extname filePath)),
                         content = chunk,
                         chunkIndex = index,
                         totalChunks = length chunks,
                         embedding = JNull \<rparr>)
                       (enumerate 0 chunks))))"

section \<open>The two builders\<close>

text \<open>
  A run of a builder gets the environment, the configuration that \<^verbatim>\<open>parseArgs\<close>
  returned and the time stamp \<open>now\<close> that \<^verbatim>\<open>new Date().toISOString()\<close> gives. Its
  result is the index that it hands to \<^verbatim>\<open>writeFileSync\<close>, or the failure that ended it
  before. Console output and the creation of the output directory are left out.
\<close>

record counts =
  stats_totalFiles :: nat       \<comment> \<open>\<^verbatim>\<open>stats.totalFiles\<close>\<close>
  stats_totalChunks :: nat      \<comment> \<open>\<^verbatim>\<open>stats.totalChunks\<close>\<close>

record kw_counts = counts +
  stats_docsFiles :: nat
  stats_blogFiles :: nat

record emb_counts = counts +
  stats_successfulChunks :: nat
  stats_failedChunks :: nat

record ('s, 'c) index =
  version :: string
  generatedAt :: string
  stats :: 's
  chunks :: "'c list"

record ('s, 'c, 'd) emb_index = "('s, 'c) index" +
  index_embeddingModel :: string      \<comment> \<open>the field \<^verbatim>\<open>embeddingModel\<close>\<close>
  index_embeddingDimension :: 'd      \<comment> \<open>the field \<^verbatim>\<open>embeddingDimension\<close>\<close>

definition baseDir_of :: "env \<Rightarrow> config \<Rightarrow> string \<Rightarrow> string" where
  "baseDir_of e cfg file =
     (if startsWith file (path_resolve (cwd e) (docsDir cfg)) then docsDir cfg else blogDir cfg)"

fun process_all :: "(string \<Rightarrow> failure + 'c list) \<Rightarrow> string list \<Rightarrow> 'c list \<Rightarrow> failure + 'c list" where
  \<comment> \<open>the loop over \<^verbatim>\<open>allFiles\<close>, which pushes every file's chunks\<close>
  "process_all process [] collected = Inr collected"
| "process_all process (file # files) collected =
     (case process file of
        Inl f \<Rightarrow> Inl f
      | Inr fileChunks \<Rightarrow> process_all process files (collected @ fileChunks))"

definition main :: "engine \<Rightarrow> env \<Rightarrow> config \<Rightarrow> string \<Rightarrow> failure + (kw_counts, kw_chunk) index" where
  \<comment> \<open>keyword script\<close>
  "main engine e cfg now =
     (let docsFiles = findMarkdownFiles e (docsDir cfg);
          blogFiles = findMarkdownFiles e (blogDir cfg);
          allFiles = docsFiles @ blogFiles
      in if length allFiles = 0 then Inl (Exit 1)
         else
           (case process_all (\<lambda>file. processFile engine e file cfg (baseDir_of e cfg file))
                   allFiles [] of
              Inl f \<Rightarrow> Inl f
            | Inr collected \<Rightarrow>
                Inr \<lparr> version = ''1.0'',
                      generatedAt = now,
                      stats = \<lparr> stats_totalFiles = length allFiles,
                                stats_totalChunks = length collected,
                                stats_docsFiles = length docsFiles,
                                stats_blogFiles = length blogFiles \<rparr>,
                      chunks = collected \<rparr>))"

text \<open>
  The embedding service is outside the program. \<open>svc i text model\<close> is the outcome of
  the request that the run makes for the chunk at position \<open>i\<close> of the array
  \<^verbatim>\<open>chunks\<close> (\<open>collected\<close> in the model, where \<open>chunks\<close> names the field of the index): the
  value \<^verbatim>\<open>result\<close> that \<^verbatim>\<open>JSON.parse\<close> makes of the body of the response, or the
  message of the error that \<^verbatim>\<open>client.send\<close>, the decoder or \<^verbatim>\<open>JSON.parse\<close> throws (an
  \<^verbatim>\<open>Error\<close> object, of which \<^verbatim>\<open>catch\<close> reads the field \<^verbatim>\<open>message\<close>).
  \<^verbatim>\<open>generateEmbedding\<close> returns \<^verbatim>\<open>result.embedding\<close> as it is: an array of numbers when
  the service keeps to its contract, but \<^verbatim>\<open>null\<close>, \<^verbatim>\<open>undefined\<close> (no such field) or any
  other value when it does not. The requests of one batch run concurrently and each
  writes to its own chunk; the model takes them in the order of the array, which
  decides only the order of \<^verbatim>\<open>errors\<close>, of which the index keeps the length. The batch
  size is 5 in every run: no command-line flag sets \<^verbatim>\<open>batchSize\<close>. The pause between
  batches is left out.
\<close>

record emb_config = config +
  embeddingModel :: string
  region :: string

type_synonym 'n service = "nat \<Rightarrow> string \<Rightarrow> string \<Rightarrow> string + 'n jsvalue"

definition batchSize :: nat where
  "batchSize = 5"

definition property_of :: "(string \<times> 'n jsvalue) list \<Rightarrow> string \<Rightarrow> 'n jsvalue" where
  \<comment> \<open>reading a property of an object that \<^verbatim>\<open>JSON.parse\<close> made, for a name that
      \<^verbatim>\<open>Object.prototype\<close> does not have\<close>
  "property_of properties key = (case map_of properties key of None \<Rightarrow> JUndefined | Some v \<Rightarrow> v)"

definition type_error :: "string \<Rightarrow> string \<Rightarrow> string" where
  \<comment> \<open>the message of the \<^verbatim>\<open>TypeError\<close> for reading a property of \<^verbatim>\<open>null\<close> or \<^verbatim>\<open>undefined\<close>\<close>
  "type_error what key =
     ''Cannot read properties of '' @ what @ '' (reading '' @ [CHR 0x27] @ key @ [CHR 0x27] @ '')''"

definition generateEmbedding :: "'n service \<Rightarrow> nat \<Rightarrow> string \<Rightarrow> string \<Rightarrow> string + 'n jsvalue" where
  \<comment> \<open>\<^verbatim>\<open>return result.embedding\<close>: a primitive value other than \<^verbatim>\<open>null\<close> has no such
      property, nor has an array\<close>
  "generateEmbedding svc i text model =
     (case svc i (js_slice 0 8000 text) model of
        Inl message \<Rightarrow> Inl message
      | Inr result \<Rightarrow>
          (case result of
             JUndefined \<Rightarrow> Inl (type_error ''undefined'' ''embedding'')
           | JNull \<Rightarrow> Inl (type_error ''null'' ''embedding'')
           | JBool b \<Rightarrow> Inr JUndefined
           | JNum x \<Rightarrow> Inr JUndefined
           | JStr t \<Rightarrow> Inr JUndefined
           | JArr xs \<Rightarrow> Inr JUndefined
           | JObj properties \<Rightarrow> Inr (property_of properties ''embedding'')))"

definition optional_length :: "'n::semiring_1 jsvalue \<Rightarrow> 'n jsvalue" where
  \<comment> \<open>\<^verbatim>\<open>v?.length\<close>\<close>
  "optional_length v =
     (case v of
        JUndefined \<Rightarrow> JUndefined
      | JNull \<Rightarrow> JUndefined
      | JBool b \<Rightarrow> JUndefined
      | JNum x \<Rightarrow> JUndefined
      | JStr t \<Rightarrow> JNum (of_nat (length t))
      | JArr xs \<Rightarrow> JNum (of_nat (length xs))
      | JObj properties \<Rightarrow> property_of properties ''length'')"

definition truthy :: "'n::zero jsvalue \<Rightarrow> bool" where
  \<comment> \<open>the values that \<^verbatim>\<open>||\<close> keeps\<close>
  "truthy v =
     (case v of
        JUndefined \<Rightarrow> False
      | JNull \<Rightarrow> False
      | JBool b \<Rightarrow> b
      | JNum x \<Rightarrow> x \<noteq> 0
      | JStr t \<Rightarrow> t \<noteq> []
      | JArr xs \<Rightarrow> True
      | JObj properties \<Rightarrow> True)"

type_synonym 'n embedding_state = "'n emb_chunk list \<times> (string \<times> string) list"

definition embed_one :: "'n service \<Rightarrow> string \<Rightarrow> 'n embedding_state \<Rightarrow> nat \<Rightarrow> 'n embedding_state" where
  \<comment> \<open>the \<^verbatim>\<open>try\<close> and \<^verbatim>\<open>catch\<close> for the chunk at position \<open>i\<close>; the state is
      \<^verbatim>\<open>(chunks, errors)\<close>, the array written \<open>collected\<close>\<close>
  "embed_one svc model st i =
     (case st of (collected, errors) \<Rightarrow>
        (case generateEmbedding svc i (content (collected ! i)) model of
           Inr v \<Rightarrow> (collected[i := (collected ! i)\<lparr>embedding := v\<rparr>], errors)
         | Inl message \<Rightarrow> (collected, errors @ [(chunk_id (collected ! i), message)])))"

function embed_batches :: "'n service \<Rightarrow> string \<Rightarrow> nat \<Rightarrow> 'n embedding_state \<Rightarrow> 'n embedding_state" where
  \<comment> \<open>\<^verbatim>\<open>for (let i = 0; i < chunks.length; i += config.batchSize)\<close>, from \<open>i\<close> on\<close>
  "embed_batches svc model i st =
     (if i < length (fst st)
      then embed_batches svc model (i + batchSize)
             (foldl (embed_one svc model) st [i ..< min (i + batchSize) (length (fst st))])
      else st)"
  by pat_completeness auto
termination
proof (relation "measure (\<lambda>(svc, model, i, st). length (fst st) - i)")
  show "wf (measure (\<lambda>(svc :: 'n service, model :: string, i :: nat, st :: 'n embedding_state).
              length (fst st) - i))"
    by simp
next
  fix svc :: "'n service" and model :: string and i :: nat and st :: "'n embedding_state"
  assume less: "i < length (fst st)"
  have one: "length (fst (embed_one svc model t j)) = length (fst t)" for t j
    by (cases t) (simp add: embed_one_def split: sum.split)
  have "length (fst (foldl (embed_one svc model) t js)) = length (fst t)" for t js
    by (induction js arbitrary: t) (simp_all add: one)
  then show "((svc, model, i + batchSize,
               foldl (embed_one svc model) st [i ..< min (i + batchSize) (length (fst st))]),
              (svc, model, i, st))
             \<in> measure (\<lambda>(svc, model, i, st). length (fst st) - i)"
    using less by (simp add: batchSize_def)
qed

declare embed_batches.simps [simp del]

definition main_emb ::
  "'n::semiring_1 service \<Rightarrow> env \<Rightarrow> emb_config \<Rightarrow> string
     \<Rightarrow> failure + (emb_counts, 'n::semiring_1 emb_chunk, 'n jsvalue) emb_index" where
  \<comment> \<open>embedding script\<close>
  "main_emb svc e cfg now =
     (let docsFiles = findMarkdownFiles e (docsDir cfg);
          blogFiles = findMarkdownFiles e (blogDir cfg);
          allFiles = docsFiles @ blogFiles
      in if allFiles = [] then Inl (Exit 1)
         else
           (case process_all (\<lambda>file. processFile_emb e file (config.truncate cfg)
                                       (baseDir_of e (config.truncate cfg) file))
                   allFiles [] of
              Inl f \<Rightarrow> Inl f
            | Inr produced \<Rightarrow>
                (case embed_batches svc (embeddingModel cfg) 0 (produced, []) of
                   (collected, errors) \<Rightarrow>
                     let successfulChunks = filter (\<lambda>c. embedding c \<noteq> JNull) collected;
                         dimension = (case successfulChunks of
                                        [] \<Rightarrow> JUndefined
                                      | c # _ \<Rightarrow> optional_length (embedding c))
                     in Inr \<lparr> version = ''2.0-embeddings'',
                              generatedAt = now,
                              stats = \<lparr> stats_totalFiles = length allFiles,
                                        stats_totalChunks = length collected,
                                        stats_successfulChunks = length successfulChunks,
                                        stats_failedChunks = length errors \<rparr>,
                              chunks = successfulChunks,
                              index_embeddingModel = embeddingModel cfg,
                              index_embeddingDimension =
                                (if truthy dimension then dimension else JNum 0) \<rparr>)))"

section \<open>Notions of the statements\<close>

definition is_hex :: "char \<Rightarrow> bool" where
  "is_hex c = (c \<in> set ''0123456789abcdef'')"

definition is_id :: "string \<Rightarrow> bool" where
  \<comment> \<open>an 8-character hexadecimal string\<close>
  "is_id s = (length s = 8 \<and> list_all is_hex s)"

definition numbered :: "('a chunk_scheme) list \<Rightarrow> bool" where
  \<comment> \<open>each record carries its position in the list and the length of the list\<close>
  "numbered cs =
     (map chunkIndex cs = [0 ..< length cs] \<and> list_all (\<lambda>c. totalChunks c = length cs) cs)"

definition files_of :: "env \<Rightarrow> config \<Rightarrow> string list" where
  \<comment> \<open>\<^verbatim>\<open>allFiles\<close>\<close>
  "files_of e cfg = findMarkdownFiles e (docsDir cfg) @ findMarkdownFiles e (blogDir cfg)"

definition produced_emb :: "env \<Rightarrow> config \<Rightarrow> failure + 'n emb_chunk list" where
  \<comment> \<open>the array \<^verbatim>\<open>chunks\<close> of the embedding script when the loop over the files is done\<close>
  "produced_emb e cfg =
     process_all (\<lambda>file. processFile_emb e file cfg (baseDir_of e cfg file)) (files_of e cfg) []"

definition request :: "'n service \<Rightarrow> string \<Rightarrow> 'n emb_chunk list \<Rightarrow> nat \<Rightarrow> string + 'n jsvalue" where
  \<comment> \<open>the outcome of the request for the chunk at position \<open>j\<close>\<close>
  "request svc model produced j = generateEmbedding svc j (content (produced ! j)) model"

definition failed :: "'n service \<Rightarrow> string \<Rightarrow> 'n emb_chunk list \<Rightarrow> nat \<Rightarrow> bool" where
  \<comment> \<open>the request throws\<close>
  "failed svc model produced j = isl (request svc model produced j)"

definition null_answer :: "'n service \<Rightarrow> string \<Rightarrow> 'n emb_chunk list \<Rightarrow> nat \<Rightarrow> bool" where
  \<comment> \<open>the request returns \<^verbatim>\<open>null\<close>\<close>
  "null_answer svc model produced j = (request svc model produced j = Inr JNull)"

definition is_array :: "'n jsvalue \<Rightarrow> bool" where
  "is_array v = (case v of JArr xs \<Rightarrow> True | _ \<Rightarrow> False)"

definition answers_with_arrays :: "'n service \<Rightarrow> string \<Rightarrow> 'n emb_chunk list \<Rightarrow> bool" where
  \<comment> \<open>every request throws or returns an array\<close>
  "answers_with_arrays svc model produced =
     list_all (\<lambda>j. case request svc model produced j of Inl message \<Rightarrow> True | Inr v \<Rightarrow> is_array v)
       [0 ..< length produced]"

definition embedded :: "'n service \<Rightarrow> string \<Rightarrow> 'n emb_chunk list \<Rightarrow> nat \<Rightarrow> 'n emb_chunk" where
  \<comment> \<open>the chunk at position \<open>j\<close> after its request\<close>
  "embedded svc model produced j =
     (case request svc model produced j of
        Inr v \<Rightarrow> (produced ! j)\<lparr>embedding := v\<rparr>
      | Inl message \<Rightarrow> produced ! j)"

definition after :: "'n service \<Rightarrow> string \<Rightarrow> 'n emb_chunk list \<Rightarrow> nat \<Rightarrow> 'n embedding_state \<Rightarrow> bool" where
  \<comment> \<open>the state of the embedding loop when the requests below position \<open>k\<close> are done\<close>
  "after svc model produced k st =
     (length (fst st) = length produced
      \<and> (\<forall>j<length produced.
            fst st ! j = (if j < k then embedded svc model produced j else produced ! j))
      \<and> length (snd st) = length (filter (failed svc model produced) [0..<k]))"

definition has_text :: "string list \<times> string \<Rightarrow> bool" where
  \<comment> \<open>a chunk was pushed, or the buffer holds more than white space\<close>
  "has_text st = (fst st \<noteq> [] \<or> (\<exists>c\<in>set (snd st). \<not> is_space c))"

definition first_seen :: "string list \<Rightarrow> string list" where
  \<comment> \<open>the distinct words in the order of their first occurrence\<close>
  "first_seen ws = foldl (\<lambda>seen w. if w \<in> set seen then seen else seen @ [w]) [] ws"

definition key_order :: "string list \<Rightarrow> string list" where
  \<comment> \<open>the order in which JavaScript lists the words as property names: the array
      indices by value, then the other words by first occurrence\<close>
  "key_order ws =
     sort_key index_value (filter is_array_index (first_seen ws))
     @ filter (\<lambda>w. \<not> is_array_index w) (first_seen ws)"

definition ranked :: "string list \<Rightarrow> string list" where
  \<comment> \<open>the words by descending frequency; \<open>sort_key\<close> is stable, so words of equal
      frequency stay in \<open>key_order\<close>\<close>
  "ranked ws = sort_key (\<lambda>w. - int (count_list ws w)) (key_order ws)"

definition tally :: "string list \<Rightarrow> entry list" where
  "tally ws = map (\<lambda>w. (w, Num (count_list ws w))) (first_seen ws)"

section \<open>Runs used as examples\<close>

definition DEFAULT_CONFIG :: config where
  \<comment> \<open>keyword script\<close>
  "DEFAULT_CONFIG =
     \<lparr> docsDir = ''./docs'', blogDir = ''./blog'', outputFile = ''./static/rag-index.json'',
       chunkSize = 1000, chunkOverlap = 200 \<rparr>"

definition DEFAULT_CONFIG_emb :: emb_config where
  \<comment> \<open>embedding script, with the region that is used when \<^verbatim>\<open>AWS_REGION\<close> is not set\<close>
  "DEFAULT_CONFIG_emb =
     \<lparr> docsDir = ''./docs'', blogDir = ''./blog'', outputFile = ''./rag-index-embeddings.json'',
       chunkSize = 512, chunkOverlap = 100,
       embeddingModel = ''amazon.titan-embed-text-v2:0'', region = ''us-east-1'' \<rparr>"

definition stable_engine :: engine where
  \<comment> \<open>an engine that sorts by stable insertion whatever the comparator\<close>
  "stable_engine = stable_sort sort_compare"

definition stamp :: string where
  "stamp = ''2026-01-01T00:00:00.000Z''"

definition intro_page :: "string \<Rightarrow> string" where
  \<comment> \<open>a file with the frontmatter \<^verbatim>\<open>title: "Intro"\<close> and the given body\<close>
  "intro_page body =
     ''---'' @ [CHR 0x0A] @ ''title: '' @ [CHR 0x22] @ ''Intro'' @ [CHR 0x22, CHR 0x0A]
     @ ''---'' @ [CHR 0x0A] @ body @ [CHR 0x0A]"

definition short_body :: string where
  "short_body = ''Hello world. This is a test.''"

definition long_body :: string where
  "long_body = ''Hello world. This is a test. It has enough prose to pass the threshold.''"

definition one_file :: "string \<Rightarrow> env" where
  \<comment> \<open>the working directory holds \<^verbatim>\<open>docs/a.md\<close> and nothing else\<close>
  "one_file body =
     \<lparr> cwd = ''/site'',
       readdirSync = (\<lambda>p. if p = ''./docs'' then Some [FileEnt ''a.md''] else None),
       readFileSync = (\<lambda>p. if p = ''docs/a.md'' then Some (intro_page body) else None) \<rparr>"

definition two_files :: env where
  \<comment> \<open>the working directory holds \<^verbatim>\<open>docs/a.md\<close> and \<^verbatim>\<open>docs/b.md\<close>\<close>
  "two_files =
     \<lparr> cwd = ''/site'',
       readdirSync = (\<lambda>p. if p = ''./docs'' then Some [FileEnt ''a.md'', FileEnt ''b.md''] else None),
       readFileSync = (\<lambda>p. if p = ''docs/a.md'' \<or> p = ''docs/b.md''
                             then Some (intro_page long_body) else None) \<rparr>"

definition nested_roots :: env where
  \<comment> \<open>\<^verbatim>\<open>content/blog/post.md\<close>, for a run with \<^verbatim>\<open>--docs ./content --blog ./content/blog\<close>\<close>
  "nested_roots =
     \<lparr> cwd = ''/site'',
       readdirSync = (\<lambda>p. if p = ''./content'' then Some [DirEnt ''blog'' [FileEnt ''post.md'']]
                           else if p = ''./content/blog'' then Some [FileEnt ''post.md'']
                           else None),
       readFileSync = (\<lambda>p. if p = ''content/blog/post.md''
                             then Some (intro_page long_body) else None) \<rparr>"

definition two_notes :: env where
  \<comment> \<open>\<^verbatim>\<open>docs/notes/194752.md\<close> and \<^verbatim>\<open>docs/notes/4450.md\<close>\<close>
  "two_notes =
     \<lparr> cwd = ''/site'',
       readdirSync = (\<lambda>p. if p = ''./docs''
                           then Some [DirEnt ''notes'' [FileEnt ''194752.md'', FileEnt ''4450.md'']]
                           else None),
       readFileSync = (\<lambda>p. if p = ''docs/notes/194752.md'' \<or> p = ''docs/notes/4450.md''
                             then Some (intro_page long_body) else None) \<rparr>"

definition answer :: "rat jsvalue \<Rightarrow> rat jsvalue" where
  \<comment> \<open>a response with the given value in the field \<^verbatim>\<open>embedding\<close>\<close>
  "answer v = JObj [(''embedding'', v), (''inputTextTokenCount'', JNum 17)]"

definition flaky :: "rat service" where
  \<comment> \<open>a service that fails the first request of a run\<close>
  "flaky i t model =
     (if i = 0 then Inl ''ThrottlingException'' else Inr (answer (JArr [JNum (1 / 2), JNum (1 / 4)])))"

definition mute :: "rat service" where
  \<comment> \<open>a service whose response to the first request of a run holds no vector\<close>
  "mute i t model =
     Inr (answer (if i = 0 then JNull else JArr [JNum (1 / 2), JNum (1 / 4)]))"

definition two_produced :: "rat emb_chunk list" where
  \<comment> \<open>the chunks that the embedding script makes of \<open>two_files\<close>\<close>
  "two_produced =
     [\<lparr> chunk_id = ''e0ac509b'', source = ''../docs/a.md'', slug = ''../docs/a'',
         title = ''Intro'', content = long_body, chunkIndex = 0, totalChunks = 1,
         embedding = JNull \<rparr>,
      \<lparr> chunk_id = ''85d3ebe7'', source = ''../docs/b.md'', slug = ''../docs/b'',
         title = ''Intro'', content = long_body, chunkIndex = 0, totalChunks = 1,
         embedding = JNull \<rparr>]"

definition two_sentences :: string where
  "two_sentences = ''Install the plugin first. Then add it to the site config.''"

section \<open>Lemmas on strings and expressions\<close>

lemma space_not_terminator: "is_space c \<Longrightarrow> \<not> is_terminator c"
  by (auto simp: is_space_def is_terminator_def)

lemma greedy_space_star:
  "rx_match [Greedy is_space 0] p s = Some (length (takeWhile is_space s), [])"
  by (induction s arbitrary: p) (auto simp: shift_def)

lemma sentence_boundary_match:
  "rx_alt sentence_boundary p s =
     (case p of None \<Rightarrow> None
      | Some q \<Rightarrow> if is_terminator q \<and> s \<noteq> [] \<and> is_space (hd s)
                  then Some (length (takeWhile is_space s), []) else None)"
  by (cases s) (auto simp: sentence_boundary_def greedy_space_star shift_def split: option.splits)

lemma trim_eq_Nil: "trim s = [] \<longleftrightarrow> (\<forall>c\<in>set s. is_space c)"
proof
  assume "trim s = []"
  then have "dropWhile is_space (rev (dropWhile is_space s)) = []"
    by (simp add: trim_def)
  then have "\<forall>c\<in>set (dropWhile is_space s). is_space c"
    by simp
  then have "dropWhile is_space s = []"
    by (metis hd_dropWhile list.set_sel(1))
  then show "\<forall>c\<in>set s. is_space c"
    by simp
next
  assume "\<forall>c\<in>set s. is_space c"
  then have e: "dropWhile is_space s = []" by simp
  show "trim s = []"
    unfolding trim_def e by simp
qed

lemma split_all_space:
  "\<forall>c\<in>set s. is_space c \<Longrightarrow> (case p of None \<Rightarrow> True | Some q \<Rightarrow> \<not> is_terminator q) \<Longrightarrow>
   rx_split_from sentence_boundary p acc s = [acc @ s]"
proof (induction s arbitrary: p acc)
  case Nil
  then show ?case by simp
next
  case (Cons c s)
  have "rx_alt sentence_boundary p (c # s) = None"
    using Cons.prems(2) by (auto simp: sentence_boundary_match split: option.splits)
  moreover have "rx_split_from sentence_boundary (Some c) (acc @ [c]) s = [(acc @ [c]) @ s]"
    using Cons.prems(1) by (intro Cons.IH) (auto simp: space_not_terminator)
  ultimately show ?case by simp
qed

lemma split_keeps_text:
  "c \<in> set acc \<union> set s \<Longrightarrow> \<not> is_space c \<Longrightarrow>
   \<exists>x\<in>set (rx_split_from sentence_boundary p acc s). c \<in> set x"
proof (induction sentence_boundary p acc s rule: rx_split_from.induct)
  case (1 p acc)
  then show ?case by simp
next
  case (2 p acc d s)
  show ?case
  proof (cases "rx_alt sentence_boundary p (d # s)")
    case None
    then show ?thesis using 2 by auto
  next
    case (Some m)
    obtain k ms where m: "m = (k, ms)" by (cases m)
    show ?thesis
    proof (cases k)
      case 0
      then show ?thesis using 2 Some m by auto
    next
      case (Suc n)
      have len: "Suc n = length (takeWhile is_space (d # s))" and sp: "is_space d"
        using Some m Suc by (auto simp: sentence_boundary_match split: option.splits if_splits)
      then have n: "n = length (takeWhile is_space s)" by simp
      have "c \<in> set acc \<or> c \<in> set (drop n s)"
      proof -
        have "c \<in> set acc \<or> c \<in> set s" using "2.prems" sp by auto
        moreover have "c \<notin> set (takeWhile is_space s)"
          using "2.prems"(2) by (auto dest: set_takeWhileD)
        moreover have "s = takeWhile is_space s @ drop n s"
          by (simp add: n dropWhile_eq_drop[symmetric])
        ultimately show ?thesis by (metis Un_iff set_append)
      qed
      then show ?thesis
      proof
        assume "c \<in> set acc" then show ?thesis using Some m Suc by simp
      next
        assume "c \<in> set (drop n s)"
        then have "\<exists>x\<in>set (rx_split_from sentence_boundary (Some (last (d # take n s))) [] (drop n s)). c \<in> set x"
          using "2.hyps"(3)[OF Some m[symmetric] Suc] "2.prems"(2) by simp
        then show ?thesis using Some m Suc by auto
      qed
    qed
  qed
qed

lemma chunk_step_has_text:
  "has_text st \<or> (\<exists>c\<in>set x. \<not> is_space c) \<Longrightarrow> has_text (chunk_step n ov st x)"
  by (cases st) (auto simp: chunk_step_def has_text_def)

lemma foldl_has_text:
  "has_text st \<or> (\<exists>x\<in>set xs. \<exists>c\<in>set x. \<not> is_space c) \<Longrightarrow>
   has_text (foldl (chunk_step n ov) st xs)"
proof (induction xs arbitrary: st)
  case Nil then show ?case by simp
next
  case (Cons x xs)
  show ?case
    using Cons.prems by (auto intro!: Cons.IH chunk_step_has_text)
qed

text \<open>
  Claim C8, as amended. The chunker's output is empty exactly for the inputs made of
  white space only, the empty string among them: the final buffer is pushed only when
  its trimmed text is not empty.
\<close>

theorem splitIntoChunks_empty_iff:
  "splitIntoChunks s n ov = [] \<longleftrightarrow> list_all is_space s"
proof (cases "list_all is_space s")
  case True
  then have "rx_split sentence_boundary s = [s]"
    by (simp add: rx_split_def split_all_space list_all_iff)
  moreover have "trim s = []" using True by (simp add: trim_eq_Nil list_all_iff)
  ultimately show ?thesis using True
    by (simp add: splitIntoChunks_def chunk_step_def)
next
  case False
  then obtain c where c: "c \<in> set s" "\<not> is_space c"
    by (auto simp: list_all_iff)
  then have "\<exists>x\<in>set (rx_split sentence_boundary s). c \<in> set x"
    using split_keeps_text[of c "[]" s None] by (simp add: rx_split_def)
  then have "has_text (foldl (chunk_step n ov) ([], []) (rx_split sentence_boundary s))"
    using c(2) by (intro foldl_has_text) auto
  then have "splitIntoChunks s n ov \<noteq> []"
    by (auto simp: splitIntoChunks_def has_text_def trim_eq_Nil split: prod.splits)
  then show ?thesis using False by simp
qed

text \<open>
  Claim C8 as stated fails on a string of one space: it is not the empty string, and
  the chunker returns no chunk for it.
\<close>

theorem splitIntoChunks_blank_counterexample:
  "\<not> (splitIntoChunks '' '' 1000 200 = [] \<longleftrightarrow> '' '' = '''')"
  by code_simp

text \<open>
  Claim C1 (the code does not keep the bound). Two sentences of 25 and 31 characters
  with chunk size 56: the test adds the two lengths without the joining space, so both
  go into one chunk of 57 characters. With chunk size 40 the second chunk is the
  overlap tail (all four words of the first chunk) followed by the second sentence, 57
  characters again, although no sentence is longer than 40. The copy of the chunker in
  the embedding script does the same.
\<close>

theorem chunk_longer_than_chunkSize:
  "rx_split sentence_boundary two_sentences
      = [''Install the plugin first.'', ''Then add it to the site config.'']
   \<and> splitIntoChunks two_sentences 56 200 = [two_sentences]
   \<and> splitIntoChunks_emb two_sentences 56 100 = [two_sentences]
   \<and> splitIntoChunks two_sentences 40 200 = [''Install the plugin first.'', two_sentences]
   \<and> length two_sentences = 57"
  by code_simp

text \<open>
  Claim C9 (the embedding script strips unmatched quotes). For the line
  \<^verbatim>\<open>title: "Intro\<close> the keyword script keeps the value as it is, the embedding
  script drops the opening quote; it also drops a quote at each end when the two
  differ. The keyword script removes a value that is one quote character alone.
\<close>

theorem unmatched_quote_removed:
  "parse_line unquote_emb (''title: '' @ [CHR 0x22] @ ''Intro'') = Some (''title'', ''Intro'')
   \<and> parse_line unquote (''title: '' @ [CHR 0x22] @ ''Intro'')
       = Some (''title'', [CHR 0x22] @ ''Intro'')
   \<and> parse_line unquote_emb (''title: '' @ [CHR 0x27] @ ''Intro'' @ [CHR 0x22])
       = Some (''title'', ''Intro'')
   \<and> parse_line unquote (''title: '' @ [CHR 0x22]) = Some (''title'', [])"
  by code_simp

section \<open>Lemmas on processing a file\<close>

lemma body_emb: "snd (parseFrontmatter_emb t) = snd (parseFrontmatter t)"
  by (simp add: parseFrontmatter_def parseFrontmatter_emb_def parse_with_def split: option.split)

lemma processFile_shape:
  assumes "readFileSync e p = Some t"
  shows "\<exists>cs. processFile engine e p cfg b = Inr cs \<and> numbered cs
           \<and> map chunk_id cs = map (generateChunkId p) [0..<length cs]
           \<and> map content cs
                 = (if length (cleanMarkdownContent (snd (parseFrontmatter t))) < 50 then []
                    else splitIntoChunks (cleanMarkdownContent (snd (parseFrontmatter t)))
                           (chunkSize cfg) (chunkOverlap cfg))"
  using assms
  by (auto simp: processFile_def Let_def numbered_def list_all_iff enumerate_eq_zip in_set_zip
        split: prod.splits intro!: nth_equalityI)

lemma processFile_emb_shape:
  assumes "readFileSync e p = Some t"
  shows "\<exists>cs. processFile_emb e p cfg b = Inr cs \<and> numbered cs
           \<and> map chunk_id cs = map (generateChunkId p) [0..<length cs]
           \<and> list_all (\<lambda>c. embedding c = JNull) cs
           \<and> map content cs
                 = (if length (cleanMarkdownContent (snd (parseFrontmatter_emb t))) < 50 then []
                    else splitIntoChunks_emb (cleanMarkdownContent (snd (parseFrontmatter_emb t)))
                           (chunkSize cfg) (chunkOverlap cfg))"
  using assms
  by (auto simp: processFile_emb_def Let_def numbered_def list_all_iff enumerate_eq_zip
        in_set_zip generateChunkId_def split: prod.splits intro!: nth_equalityI)

lemma processFile_read: "processFile engine e p cfg b = Inr cs \<Longrightarrow> \<exists>t. readFileSync e p = Some t"
  by (cases "readFileSync e p") (simp_all add: processFile_def)

lemma processFile_emb_read: "processFile_emb e p cfg b = Inr cs \<Longrightarrow> \<exists>t. readFileSync e p = Some t"
  by (cases "readFileSync e p") (simp_all add: processFile_emb_def)

lemma numbered_bound: "numbered cs \<Longrightarrow> list_all (\<lambda>c. chunkIndex c < totalChunks c) cs"
proof -
  assume n: "numbered cs"
  have "chunkIndex (cs ! i) < totalChunks (cs ! i)" if "i < length cs" for i
  proof -
    have "chunkIndex (cs ! i) = map chunkIndex cs ! i" using that by simp
    also have "\<dots> = i" using n that by (simp add: numbered_def)
    finally show ?thesis using n that by (simp add: numbered_def list_all_length)
  qed
  then show ?thesis by (simp add: list_all_length)
qed


section \<open>Lemmas on the two builders\<close>

lemma process_all_invariant:
  assumes "\<And>f cs. process f = Inr cs \<Longrightarrow> list_all P cs"
      and "list_all P acc" and "process_all process files acc = Inr res"
  shows "list_all P res"
  using assms(2,3)
proof (induction files arbitrary: acc)
  case Nil
  then show ?case by simp
next
  case (Cons f files)
  from Cons.prems(2) obtain cs where cs: "process f = Inr cs"
    and rest: "process_all process files (acc @ cs) = Inr res"
    by (auto split: sum.splits)
  have "list_all P (acc @ cs)" using Cons.prems(1) assms(1)[OF cs] by simp
  then show ?case using rest by (rule Cons.IH)
qed

lemma main_Inr:
  assumes "main engine e cfg now = Inr idx"
  shows "process_all (\<lambda>file. processFile engine e file cfg (baseDir_of e cfg file))
           (files_of e cfg) [] = Inr (chunks idx)"
  using assms
  by (auto simp: main_def files_of_def Let_def split: if_splits sum.splits)

lemma main_chunks:
  assumes "main engine e cfg now = Inr idx"
      and "\<And>p b cs. processFile engine e p cfg b = Inr cs \<Longrightarrow> list_all P cs"
  shows "list_all P (chunks idx)"
  using main_Inr[OF assms(1)]
  by (rule process_all_invariant[where P = P, rotated 2]) (auto intro: assms(2))

lemma embed_one_after:
  assumes "after svc model produced k st" "k < length produced"
  shows "after svc model produced (Suc k) (embed_one svc model st k)"
proof (cases st)
  case (Pair cs errs)
  have k: "cs ! k = produced ! k" and len: "length cs = length produced"
    using assms Pair by (auto simp: after_def)
  show ?thesis
  proof (cases "request svc model produced k")
    case (Inl m)
    then show ?thesis
      using assms Pair k
      by (auto simp: after_def embed_one_def request_def failed_def embedded_def less_Suc_eq)
  next
    case (Inr v)
    then show ?thesis
      using assms Pair k len
      by (auto simp: after_def embed_one_def request_def failed_def embedded_def less_Suc_eq
            nth_list_update)
  qed
qed

lemma embed_run_after:
  assumes "after svc model produced a st" "b \<le> length produced" "a \<le> b"
  shows "after svc model produced b (foldl (embed_one svc model) st [a..<b])"
  using assms(2,3)
proof (induction b)
  case 0
  then show ?case using assms(1) by simp
next
  case (Suc b)
  show ?case
  proof (cases "a = Suc b")
    case True
    then show ?thesis using assms(1) by simp
  next
    case False
    then have "a \<le> b" using Suc.prems by simp
    then show ?thesis using Suc embed_one_after[of svc model produced b] by simp
  qed
qed

lemma embed_batches_after:
  "after svc model produced (min i (length produced)) st \<Longrightarrow>
   after svc model produced (length produced) (embed_batches svc model i st)"
proof (induction svc model i st rule: embed_batches.induct)
  case (1 svc model i st)
  have len: "length (fst st) = length produced"
    using "1.prems" by (simp add: after_def)
  show ?case
  proof (cases "i < length (fst st)")
    case True
    let ?b = "min (i + batchSize) (length (fst st))"
    have "after svc model produced i st" using "1.prems" True len by simp
    then have "after svc model produced ?b (foldl (embed_one svc model) st [i..<?b])"
      using True len by (intro embed_run_after) auto
    then have "after svc model produced (length produced)
        (embed_batches svc model (i + batchSize) (foldl (embed_one svc model) st [i..<?b]))"
      using True len by (intro "1.IH") (auto simp: min_def)
    then show ?thesis using True by (subst embed_batches.simps) simp
  next
    case False
    then have "after svc model produced (length produced) st"
      using "1.prems" len by (cases "i = length produced") (simp_all add: min_def)
    then show ?thesis using False by (subst embed_batches.simps) simp
  qed
qed

lemma embed_batches_result:
  "fst (embed_batches svc model 0 (produced, []))
      = map (embedded svc model produced) [0..<length produced]
   \<and> length (snd (embed_batches svc model 0 (produced, [])))
      = length (filter (failed svc model produced) [0..<length produced])"
proof -
  have "after svc model produced (min 0 (length produced)) (produced, [])"
    by (simp add: after_def)
  then have "after svc model produced (length produced) (embed_batches svc model 0 (produced, []))"
    by (rule embed_batches_after)
  then have len: "length (fst (embed_batches svc model 0 (produced, []))) = length produced"
    and nth: "\<And>j. j < length produced \<Longrightarrow>
           fst (embed_batches svc model 0 (produced, [])) ! j = embedded svc model produced j"
    and errs: "length (snd (embed_batches svc model 0 (produced, [])))
       = length (filter (failed svc model produced) [0..<length produced])"
    by (simp_all add: after_def)
  have "fst (embed_batches svc model 0 (produced, []))
      = map (embedded svc model produced) [0..<length produced]"
    by (rule nth_equalityI) (simp_all add: len nth)
  then show ?thesis using errs by simp
qed

lemma produced_invariant:
  assumes "produced_emb e cfg = Inr produced"
      and "\<And>p b cs. processFile_emb e p cfg b = Inr cs \<Longrightarrow> list_all P cs"
  shows "list_all P produced"
  using assms(1) unfolding produced_emb_def
  by (rule process_all_invariant[where P = P, rotated 2]) (auto intro: assms(2))

lemma produced_null:
  "produced_emb e cfg = Inr produced \<Longrightarrow> list_all (\<lambda>c. embedding c = JNull) produced"
proof (erule produced_invariant)
  fix p b and cs :: "'a emb_chunk list"
  assume r: "processFile_emb e p cfg b = Inr cs"
  then obtain t where "readFileSync e p = Some t" by (auto dest: processFile_emb_read)
  then show "list_all (\<lambda>c. embedding c = JNull) cs"
    using r by (auto simp: processFile_emb_def Let_def list_all_iff split: prod.splits if_splits)
qed

lemma embedded_null:
  assumes "list_all (\<lambda>c. embedding c = JNull) produced" "j < length produced"
  shows "embedding (embedded svc model produced j) \<noteq> JNull
           \<longleftrightarrow> \<not> failed svc model produced j \<and> \<not> null_answer svc model produced j"
  using assms
  by (auto simp: embedded_def failed_def null_answer_def list_all_length split: sum.splits)

lemma length_filter_neither:
  assumes "\<And>x. x \<in> set xs \<Longrightarrow> Q x \<Longrightarrow> \<not> P x"
  shows "length (filter (\<lambda>x. \<not> P x \<and> \<not> Q x) xs) + length (filter P xs) + length (filter Q xs)
           = length xs"
  using assms by (induction xs) auto

lemma main_emb_result:
  assumes "files_of e (config.truncate cfg) \<noteq> []"
      and "produced_emb e (config.truncate cfg) = Inr produced"
  shows "\<exists>idx. main_emb svc e cfg now = Inr idx
           \<and> chunks idx = map (embedded svc (embeddingModel cfg) produced)
                            (filter (\<lambda>j. \<not> failed svc (embeddingModel cfg) produced j
                                         \<and> \<not> null_answer svc (embeddingModel cfg) produced j)
                               [0..<length produced])
           \<and> stats_totalChunks (stats idx) = length produced
           \<and> stats_failedChunks (stats idx)
                 = length (filter (failed svc (embeddingModel cfg) produced) [0..<length produced])"
proof -
  let ?m = "embeddingModel cfg"
  let ?n = "length produced"
  obtain cs errs where run: "embed_batches svc ?m 0 (produced, []) = (cs, errs)"
    by (cases "embed_batches svc ?m 0 (produced, [])")
  have cs: "cs = map (embedded svc ?m produced) [0..<?n]"
    and errs: "length errs = length (filter (failed svc ?m produced) [0..<?n])"
    using embed_batches_result[of svc ?m produced] run by simp_all
  have null: "list_all (\<lambda>c. embedding c = JNull) produced"
    using assms(2) by (rule produced_null)
  have kept: "filter (\<lambda>c. embedding c \<noteq> JNull) cs
      = map (embedded svc ?m produced)
          (filter (\<lambda>j. \<not> failed svc ?m produced j \<and> \<not> null_answer svc ?m produced j) [0..<?n])"
    unfolding cs filter_map
    by (rule arg_cong[where f = "map _"], rule filter_cong)
       (simp_all add: embedded_null[OF null])
  have dirs: "docsDir (config.truncate cfg) = docsDir cfg"
    "blogDir (config.truncate cfg) = blogDir cfg"
    by (simp_all add: config.truncate_def)
  have "\<exists>idx. main_emb svc e cfg now = Inr idx
          \<and> chunks idx = filter (\<lambda>c. embedding c \<noteq> JNull) cs
          \<and> stats_totalChunks (stats idx) = length cs
          \<and> stats_failedChunks (stats idx) = length errs"
    using assms run
    by (simp add: main_emb_def files_of_def produced_emb_def Let_def dirs)
  moreover have "length cs = ?n" by (simp add: cs)
  ultimately show ?thesis
    using errs by (simp add: kept)
qed

lemma main_emb_Inr:
  assumes "main_emb svc e cfg now = Inr (idx :: (emb_counts, 'n::semiring_1 emb_chunk, 'n jsvalue) emb_index)"
  shows "files_of e (config.truncate cfg) \<noteq> []
         \<and> (\<exists>produced :: 'n emb_chunk list. produced_emb e (config.truncate cfg) = Inr produced)"
proof -
  have dirs: "docsDir (config.truncate cfg) = docsDir cfg"
    "blogDir (config.truncate cfg) = blogDir cfg"
    by (simp_all add: config.truncate_def)
  show ?thesis
    using assms
    by (auto simp: main_emb_def files_of_def produced_emb_def Let_def dirs
          split: if_splits sum.splits)
qed

lemma main_emb_chunks:
  assumes run: "main_emb svc e cfg now = Inr (idx :: (emb_counts, 'n::semiring_1 emb_chunk, 'n jsvalue) emb_index)"
      and each: "\<And>p b cs. processFile_emb e p (config.truncate cfg) b = Inr (cs :: 'n emb_chunk list)
                  \<Longrightarrow> list_all P cs"
      and keep: "\<And>(c :: 'n emb_chunk) v. P (c\<lparr>embedding := v\<rparr>) = P c"
  shows "list_all P (chunks idx)"
proof -
  from main_emb_Inr[OF run] obtain produced where
    files: "files_of e (config.truncate cfg) \<noteq> []"
    and produced: "produced_emb e (config.truncate cfg) = Inr (produced :: 'n emb_chunk list)"
    by auto
  have all: "list_all P produced"
    using produced by (rule produced_invariant) (rule each)
  from main_emb_result[OF files produced, of svc now] run
  have "chunks idx = map (embedded svc (embeddingModel cfg) produced)
          (filter (\<lambda>j. \<not> failed svc (embeddingModel cfg) produced j
                       \<and> \<not> null_answer svc (embeddingModel cfg) produced j)
             [0..<length produced])"
    by auto
  then show ?thesis
    using all keep by (auto simp: list_all_iff embedded_def list_all_length split: sum.splits)
qed

section \<open>Lemmas on identifiers\<close>

lemma hex_digit_hex: "is_hex (hex_digit n)"
proof -
  have "n mod 16 < length ''0123456789abcdef''" by simp
  then show ?thesis unfolding is_hex_def hex_digit_def by (rule nth_mem)
qed

lemma hex_byte_shape: "length (hex_byte b) = 2 \<and> list_all is_hex (hex_byte b)"
  by (simp add: hex_byte_def hex_digit_hex)

lemma hex_bytes_shape:
  "length (concat (map hex_byte bs)) = 2 * length bs \<and> list_all is_hex (concat (map hex_byte bs))"
  by (induction bs) (simp_all add: hex_byte_shape)

lemma md5_hex_shape: "length (md5_hex s) = 32 \<and> list_all is_hex (md5_hex s)"
proof -
  obtain a b c d where
    "foldl md5_block (0x67452301, 0xefcdab89, 0x98badcfe, 0x10325476)
        (blocks 64 (length (md5_pad (utf8 s)) div 64) (md5_pad (utf8 s))) = (a, b, c, d)"
    by (metis prod_cases4)
  then have "md5_hex s = concat (map hex_byte (concat (map word_bytes [a, b, c, d])))"
    by (simp add: md5_hex_def Let_def)
  moreover have "length (concat (map word_bytes [a, b, c, d])) = 16"
    by (simp add: word_bytes_def)
  ultimately show ?thesis
    using hex_bytes_shape[of "concat (map word_bytes [a, b, c, d])"] by simp
qed

lemma generateChunkId_shape: "is_id (generateChunkId p i)"
  using md5_hex_shape[of "p @ ''-'' @ decimal i"]
  by (simp add: is_id_def generateChunkId_def js_slice_def clamp_index_def list_all_iff)
     (meson in_set_takeD)

lemma ids_shape:
  "map chunk_id cs = map (generateChunkId p) [0..<length cs] \<Longrightarrow>
   list_all (\<lambda>c. is_id (chunk_id c)) cs"
proof -
  assume eq: "map chunk_id cs = map (generateChunkId p) [0..<length cs]"
  have "is_id (chunk_id (cs ! i))" if "i < length cs" for i
  proof -
    have "chunk_id (cs ! i) = map chunk_id cs ! i" using that by simp
    also have "\<dots> = generateChunkId p i" using that by (simp add: eq)
    finally show ?thesis by (simp add: generateChunkId_shape)
  qed
  then show ?thesis by (simp add: list_all_length)
qed

section \<open>The claims on processing and on the builders\<close>

text \<open>
  Claim C4. A document whose cleaned body is shorter than 50 characters contributes
  no chunk: \<^verbatim>\<open>processFile\<close> of either script returns the empty array for it.
\<close>

theorem short_body_no_chunks:
  assumes "readFileSync e p = Some t"
      and "length (cleanMarkdownContent (snd (parseFrontmatter t))) < 50"
  shows "processFile engine e p cfg b = Inr [] \<and> processFile_emb e p cfg b = Inr []"
  using assms body_emb[of t]
  by (auto simp: processFile_def processFile_emb_def Let_def split: prod.splits)

text \<open>
  Claim C10. A document whose cleaned body has 50 characters or more is processed into
  the \<open>k\<close> pieces that the chunker makes of the body (a shorter body gives no record).
  \<^verbatim>\<open>processFile\<close> returns \<open>k\<close> records, which carry the pieces in their order; each has
  its position as \<^verbatim>\<open>chunkIndex\<close> and \<open>k\<close> as \<^verbatim>\<open>totalChunks\<close>. Hence
  \<^verbatim>\<open>chunkIndex < totalChunks\<close> for every record of an index, of either script.
\<close>

theorem chunk_numbering:
  "(readFileSync e p = Some t \<longrightarrow>
      (\<exists>cs. processFile engine e p cfg b = Inr cs
         \<and> map content cs
             = (if length (cleanMarkdownContent (snd (parseFrontmatter t))) < 50 then []
                else splitIntoChunks (cleanMarkdownContent (snd (parseFrontmatter t)))
                       (chunkSize cfg) (chunkOverlap cfg))
         \<and> map chunkIndex cs = [0 ..< length cs]
         \<and> list_all (\<lambda>c. totalChunks c = length cs) cs))
   \<and> (readFileSync e p = Some t \<longrightarrow>
      (\<exists>cs :: 'n emb_chunk list. processFile_emb e p cfg b = Inr cs
         \<and> map content cs
             = (if length (cleanMarkdownContent (snd (parseFrontmatter_emb t))) < 50 then []
                else splitIntoChunks_emb (cleanMarkdownContent (snd (parseFrontmatter_emb t)))
                       (chunkSize cfg) (chunkOverlap cfg))
         \<and> map chunkIndex cs = [0 ..< length cs]
         \<and> list_all (\<lambda>c. totalChunks c = length cs) cs))
   \<and> (main engine e cfg now = Inr idx \<longrightarrow>
        list_all (\<lambda>c. chunkIndex c < totalChunks c) (chunks idx))
   \<and> (main_emb svc e ecfg now = Inr (eidx :: (emb_counts, 'k::semiring_1 emb_chunk, 'k jsvalue) emb_index) \<longrightarrow>
        list_all (\<lambda>c. chunkIndex c < totalChunks c) (chunks eidx))"
proof (intro conjI impI)
  assume "readFileSync e p = Some t"
  from processFile_shape[OF this, of engine cfg b]
  show "\<exists>cs. processFile engine e p cfg b = Inr cs
         \<and> map content cs
             = (if length (cleanMarkdownContent (snd (parseFrontmatter t))) < 50 then []
                else splitIntoChunks (cleanMarkdownContent (snd (parseFrontmatter t)))
                       (chunkSize cfg) (chunkOverlap cfg))
         \<and> map chunkIndex cs = [0 ..< length cs]
         \<and> list_all (\<lambda>c. totalChunks c = length cs) cs"
    unfolding numbered_def by blast
next
  assume r: "readFileSync e p = Some t"
  obtain cs :: "'n emb_chunk list" where "processFile_emb e p cfg b = Inr cs \<and> numbered cs
           \<and> map chunk_id cs = map (generateChunkId p) [0..<length cs]
           \<and> list_all (\<lambda>c. embedding c = JNull) cs
           \<and> map content cs
                 = (if length (cleanMarkdownContent (snd (parseFrontmatter_emb t))) < 50 then []
                    else splitIntoChunks_emb (cleanMarkdownContent (snd (parseFrontmatter_emb t)))
                           (chunkSize cfg) (chunkOverlap cfg))"
    using processFile_emb_shape[OF r, of cfg b] by blast
  then show "\<exists>cs :: 'n emb_chunk list. processFile_emb e p cfg b = Inr cs
         \<and> map content cs
             = (if length (cleanMarkdownContent (snd (parseFrontmatter_emb t))) < 50 then []
                else splitIntoChunks_emb (cleanMarkdownContent (snd (parseFrontmatter_emb t)))
                       (chunkSize cfg) (chunkOverlap cfg))
         \<and> map chunkIndex cs = [0 ..< length cs]
         \<and> list_all (\<lambda>c. totalChunks c = length cs) cs"
    unfolding numbered_def by blast
next
  assume run: "main engine e cfg now = Inr idx"
  show "list_all (\<lambda>c. chunkIndex c < totalChunks c) (chunks idx)"
  proof (rule main_chunks[OF run])
    fix q d cs
    assume r: "processFile engine e q cfg d = Inr cs"
    then obtain u where "readFileSync e q = Some u" by (auto dest: processFile_read)
    from processFile_shape[OF this, of engine cfg d] r
    show "list_all (\<lambda>c. chunkIndex c < totalChunks c) cs" by (auto intro: numbered_bound)
  qed
next
  assume run: "main_emb svc e ecfg now = Inr eidx"
  show "list_all (\<lambda>c. chunkIndex c < totalChunks c) (chunks eidx)"
  proof (rule main_emb_chunks[OF run])
    fix q d and cs :: "'k emb_chunk list"
    assume r: "processFile_emb e q (config.truncate ecfg) d = Inr cs"
    then obtain u where u: "readFileSync e q = Some u" by (auto dest: processFile_emb_read)
    obtain cs' :: "'k emb_chunk list" where
      "processFile_emb e q (config.truncate ecfg) d = Inr cs'" "numbered cs'"
      using processFile_emb_shape[OF u, of "config.truncate ecfg" d] by blast
    then show "list_all (\<lambda>c. chunkIndex c < totalChunks c) cs"
      using r by (auto intro: numbered_bound)
  qed simp
qed

text \<open>
  Claim C2, as amended. Let the embedding script have produced \<open>N\<close> chunks; let \<open>M\<close> of
  the \<open>N\<close> requests to the embedding service throw, and let \<open>K\<close> of them return \<^verbatim>\<open>null\<close>.
  The run still ends with an index. Its chunks are the chunks whose request neither
  threw nor returned \<^verbatim>\<open>null\<close>, each with what its request returned, in their order, so
  there are \<open>N - M - K\<close> of them and none has \<^verbatim>\<open>null\<close> as embedding; and
  \<^verbatim>\<open>stats.failedChunks\<close> is \<open>M\<close>. When every request throws or returns an array, the
  index has \<open>N - M\<close> chunks and each holds an array.
\<close>

theorem failed_embeddings_left_out:
  assumes "files_of e (config.truncate cfg) \<noteq> []"
      and "produced_emb e (config.truncate cfg) = Inr produced"
  shows "\<exists>idx. main_emb svc e cfg now = Inr idx
           \<and> chunks idx = map (embedded svc (embeddingModel cfg) produced)
                            (filter (\<lambda>j. \<not> failed svc (embeddingModel cfg) produced j
                                         \<and> \<not> null_answer svc (embeddingModel cfg) produced j)
                               [0..<length produced])
           \<and> length (chunks idx) = length produced
                 - length (filter (failed svc (embeddingModel cfg) produced) [0..<length produced])
                 - length (filter (null_answer svc (embeddingModel cfg) produced)
                     [0..<length produced])
           \<and> stats_failedChunks (stats idx)
                 = length (filter (failed svc (embeddingModel cfg) produced) [0..<length produced])
           \<and> stats_totalChunks (stats idx) = length produced
           \<and> list_all (\<lambda>c. embedding c \<noteq> JNull) (chunks idx)
           \<and> (answers_with_arrays svc (embeddingModel cfg) produced \<longrightarrow>
                length (chunks idx) = length produced
                  - length (filter (failed svc (embeddingModel cfg) produced)
                      [0..<length produced])
                \<and> list_all (\<lambda>c. is_array (embedding c)) (chunks idx))"
proof -
  let ?m = "embeddingModel cfg"
  let ?n = "length produced"
  let ?kept = "filter (\<lambda>j. \<not> failed svc ?m produced j \<and> \<not> null_answer svc ?m produced j) [0..<?n]"
  from main_emb_result[OF assms, of svc now] obtain idx where
    run: "main_emb svc e cfg now = Inr idx"
    and kept: "chunks idx = map (embedded svc ?m produced) ?kept"
    and total: "stats_totalChunks (stats idx) = ?n"
    and errs: "stats_failedChunks (stats idx) = length (filter (failed svc ?m produced) [0..<?n])"
    by blast
  have null: "list_all (\<lambda>c. embedding c = JNull) produced"
    using assms(2) by (rule produced_null)
  have "length ?kept + length (filter (failed svc ?m produced) [0..<?n])
          + length (filter (null_answer svc ?m produced) [0..<?n]) = length [0..<?n]"
    by (rule length_filter_neither) (simp add: failed_def null_answer_def)
  then have count: "length ?kept = ?n - length (filter (failed svc ?m produced) [0..<?n])
      - length (filter (null_answer svc ?m produced) [0..<?n])"
    by simp
  have no_null: "list_all (\<lambda>c. embedding c \<noteq> JNull) (chunks idx)"
    unfolding kept by (simp add: list_all_iff embedded_null[OF null])
  have contract: "length (chunks idx) = ?n - length (filter (failed svc ?m produced) [0..<?n])
      \<and> list_all (\<lambda>c. is_array (embedding c)) (chunks idx)"
    if a: "answers_with_arrays svc ?m produced"
  proof -
    have each: "is_array v" if "j < ?n" "request svc ?m produced j = Inr v" for j v
      using a that by (auto simp: answers_with_arrays_def list_all_iff split: sum.splits)
    have "\<not> null_answer svc ?m produced j" if "j < ?n" for j
      using each[OF that, of JNull] by (auto simp: null_answer_def is_array_def)
    then have "filter (null_answer svc ?m produced) [0..<?n] = []"
      by (simp add: filter_empty_conv)
    then have "length (chunks idx) = ?n - length (filter (failed svc ?m produced) [0..<?n])"
      using count by (simp add: kept)
    moreover have "is_array (embedding (embedded svc ?m produced j))"
      if "j < ?n" "\<not> failed svc ?m produced j" for j
      using that each[of j]
      by (cases "request svc ?m produced j") (simp_all add: failed_def embedded_def)
    then have "list_all (\<lambda>c. is_array (embedding c)) (chunks idx)"
      unfolding kept by (simp add: list_all_iff)
    ultimately show ?thesis by simp
  qed
  show ?thesis
    using run kept total errs count no_null contract
    by (intro exI[of _ idx]) simp
qed

text \<open>
  Claim C6. The identifier of a chunk is computed from the path of its file and its
  position alone, and it is a string of 8 hexadecimal digits. Two runs of a builder on
  the same input, at different times, give the same identifiers in the same order.
\<close>

theorem chunk_ids_determined:
  "is_id (generateChunkId p i)
   \<and> (processFile engine e p cfg b = Inr cs \<longrightarrow>
        map chunk_id cs = map (generateChunkId p) [0..<length cs])
   \<and> (processFile_emb e p cfg b = Inr (es :: 'n emb_chunk list) \<longrightarrow>
        map chunk_id es = map (generateChunkId p) [0..<length es])
   \<and> (main engine e cfg now = Inr idx \<longrightarrow> list_all (\<lambda>c. is_id (chunk_id c)) (chunks idx))
   \<and> (main_emb svc e ecfg now = Inr (eidx :: (emb_counts, 'k::semiring_1 emb_chunk, 'k jsvalue) emb_index) \<longrightarrow>
        list_all (\<lambda>c. is_id (chunk_id c)) (chunks eidx))
   \<and> map_sum id (\<lambda>x. map chunk_id (chunks x)) (main engine e cfg now)
       = map_sum id (\<lambda>x. map chunk_id (chunks x)) (main engine e cfg later)
   \<and> map_sum id (\<lambda>x. map chunk_id (chunks x)) (main_emb svc e ecfg now)
       = map_sum id (\<lambda>x. map chunk_id (chunks x)) (main_emb svc e ecfg later)"
proof (intro conjI impI)
  show "is_id (generateChunkId p i)" by (rule generateChunkId_shape)
next
  assume r: "processFile engine e p cfg b = Inr cs"
  then obtain u where "readFileSync e p = Some u" by (auto dest: processFile_read)
  from processFile_shape[OF this, of engine cfg b] r
  show "map chunk_id cs = map (generateChunkId p) [0..<length cs]" by auto
next
  assume r: "processFile_emb e p cfg b = Inr es"
  then obtain u where u: "readFileSync e p = Some u" by (auto dest: processFile_emb_read)
  obtain cs' :: "'n emb_chunk list" where
    "processFile_emb e p cfg b = Inr cs'" "map chunk_id cs' = map (generateChunkId p) [0..<length cs']"
    using processFile_emb_shape[OF u, of cfg b] by blast
  then show "map chunk_id es = map (generateChunkId p) [0..<length es]"
    using r by auto
next
  assume run: "main engine e cfg now = Inr idx"
  show "list_all (\<lambda>c. is_id (chunk_id c)) (chunks idx)"
  proof (rule main_chunks[OF run])
    fix q d cs
    assume r: "processFile engine e q cfg d = Inr cs"
    then obtain u where "readFileSync e q = Some u" by (auto dest: processFile_read)
    from processFile_shape[OF this, of engine cfg d] r
    show "list_all (\<lambda>c. is_id (chunk_id c)) cs" by (auto intro: ids_shape)
  qed
next
  assume run: "main_emb svc e ecfg now = Inr eidx"
  show "list_all (\<lambda>c. is_id (chunk_id c)) (chunks eidx)"
  proof (rule main_emb_chunks[OF run])
    fix q d and cs :: "'k emb_chunk list"
    assume r: "processFile_emb e q (config.truncate ecfg) d = Inr cs"
    then obtain u where u: "readFileSync e q = Some u" by (auto dest: processFile_emb_read)
    obtain cs' :: "'k emb_chunk list" where
      "processFile_emb e q (config.truncate ecfg) d = Inr cs'"
      "map chunk_id cs' = map (generateChunkId q) [0..<length cs']"
      using processFile_emb_shape[OF u, of "config.truncate ecfg" d] by blast
    then show "list_all (\<lambda>c. is_id (chunk_id c)) cs"
      using r by (auto intro: ids_shape)
  qed simp
next
  show "map_sum id (\<lambda>x. map chunk_id (chunks x)) (main engine e cfg now)
       = map_sum id (\<lambda>x. map chunk_id (chunks x)) (main engine e cfg later)"
    by (simp add: main_def Let_def split: sum.split)
next
  show "map_sum id (\<lambda>x. map chunk_id (chunks x)) (main_emb svc e ecfg now)
       = map_sum id (\<lambda>x. map chunk_id (chunks x)) (main_emb svc e ecfg later)"
    by (simp add: main_emb_def Let_def split: sum.split prod.split)
qed

section \<open>Lemmas on keywords\<close>

lemma first_seen_snoc:
  "first_seen (ws @ [w]) = (if w \<in> set (first_seen ws) then first_seen ws else first_seen ws @ [w])"
  by (simp add: first_seen_def)

lemma set_first_seen: "set (first_seen ws) = set ws"
  by (induction ws rule: rev_induct) (auto simp: first_seen_snoc, simp add: first_seen_def)

lemma map_of_tally:
  "map_of (tally ws) w = (if w \<in> set ws then Some (Num (count_list ws w)) else None)"
  by (simp add: tally_def map_of_map_restrict restrict_map_def set_first_seen)

lemma count_snoc: "count_list (ws @ [w]) v = count_list ws v + (if v = w then 1 else 0)"
  by (induction ws) auto

lemma count_word_tally:
  assumes "w \<noteq> ''constructor''"
  shows "count_word (tally ws) w = tally (ws @ [w])"
proof (cases "w \<in> set ws")
  case True
  have "count_word (tally ws) w
      = map (\<lambda>(k, u). if k = w then (k, plus_one u) else (k, u)) (tally ws)"
    using True by (simp add: count_word_def map_of_tally)
  also have "\<dots> = map (\<lambda>v. (v, Num (count_list (ws @ [w]) v))) (first_seen ws)"
    by (simp add: tally_def plus_one_def count_snoc)
  also have "\<dots> = tally (ws @ [w])"
    using True by (simp add: tally_def first_seen_snoc set_first_seen)
  finally show ?thesis .
next
  case False
  then have zero: "count_list ws w = 0" by (simp add: count_list_0_iff)
  have "count_word (tally ws) w = tally ws @ [(w, Num 1)]"
    using False assms by (simp add: count_word_def map_of_tally plus_one_def)
  also have "\<dots> = map (\<lambda>v. (v, Num (count_list (ws @ [w]) v))) (first_seen ws @ [w])"
    using False zero by (auto simp: tally_def count_snoc set_first_seen)
  also have "\<dots> = tally (ws @ [w])"
    using False by (simp add: tally_def first_seen_snoc set_first_seen)
  finally show ?thesis .
qed

lemma foldl_count_word:
  "''constructor'' \<notin> set ws \<Longrightarrow> foldl count_word [] ws = tally ws"
proof (induction ws rule: rev_induct)
  case Nil
  then show ?case by (simp add: tally_def first_seen_def)
next
  case (snoc w ws)
  then have "w \<noteq> ''constructor''" and "foldl count_word [] ws = tally ws" by auto
  then show ?case by (simp add: count_word_tally)
qed

lemma insort_key_map:
  "insort_key k (g x) (map g ys) = map g (insort_key (\<lambda>y. k (g y)) x ys)"
  by (induction ys) simp_all

lemma sort_key_map_out: "sort_key k (map g xs) = map g (sort_key (\<lambda>y. k (g y)) xs)"
  by (induction xs) (simp_all add: insort_key_map)

lemma entries_tally:
  "entries (tally ws) = map (\<lambda>w. (w, Num (count_list ws w))) (key_order ws)"
  by (simp add: entries_def tally_def key_order_def filter_map comp_def sort_key_map_out)

lemma insert_by_counts:
  "insert_by sort_compare (w, Num (c w)) (map (\<lambda>v. (v, Num (c v))) ys)
     = map (\<lambda>v. (v, Num (c v))) (insort_key (\<lambda>v. - int (c v)) w ys)"
  by (induction ys) (simp_all add: sort_compare_def by_count_def)

lemma stable_sort_counts:
  "stable_sort sort_compare (map (\<lambda>v. (v, Num (c v))) xs)
     = map (\<lambda>v. (v, Num (c v))) (sort_key (\<lambda>v. - int (c v)) xs)"
  by (induction xs) (simp_all add: stable_sort_def insert_by_counts)

lemma consistent_counts: "consistent (map (\<lambda>v. (v, Num (c v))) xs)"
  by (simp add: consistent_def list_all_iff is_num_def)

lemma js_slice_take: "js_slice 0 (int m) xs = take m xs"
  by (cases "m \<le> length xs") (simp_all add: js_slice_def clamp_index_def min_def)

lemma extractKeywords_ranked:
  assumes "''constructor'' \<notin> set (keyword_words s)"
  shows "extractKeywords engine s (int m) = take m (ranked (keyword_words s))"
  using assms
  by (simp add: extractKeywords_def foldl_count_word entries_tally js_sort_def consistent_counts
        stable_sort_counts js_slice_take take_map ranked_def comp_def)

lemma keys_count_word: "fst ` set (count_word f w) = insert w (fst ` set f)"
proof (cases "map_of f w")
  case None
  then show ?thesis by (simp add: count_word_def)
next
  case (Some v)
  then have "w \<in> fst ` set f" using map_of_SomeD[of f w v] by force
  moreover have "fst ` set (map (\<lambda>(k, u). if k = w then (k, plus_one u) else (k, u)) f) = fst ` set f"
    by (force simp: image_iff split: prod.splits if_splits)
  ultimately show ?thesis using Some by (auto simp: count_word_def)
qed

lemma keys_foldl_count_word: "fst ` set (foldl count_word f ws) = fst ` set f \<union> set ws"
  by (induction ws arbitrary: f) (auto simp: keys_count_word)

lemma set_insert_by: "set (insert_by cmp x ys) = insert x (set ys)"
  by (induction ys) auto

lemma set_stable_sort: "set (stable_sort cmp xs) = set xs"
  by (induction xs) (simp_all add: stable_sort_def set_insert_by)

lemma set_entries: "set (entries f) = set f"
  by (auto simp: entries_def)

lemma set_js_slice: "set (js_slice a b xs) \<subseteq> set xs"
  by (auto simp: js_slice_def Let_def dest: in_set_takeD in_set_dropD)

lemma extractKeywords_words:
  assumes "\<And>es. set (engine es) \<subseteq> set es"
  shows "set (extractKeywords engine s m) \<subseteq> set (keyword_words s)"
proof -
  let ?f = "foldl count_word [] (keyword_words s)"
  have "set (js_sort engine (entries ?f)) \<subseteq> set (entries ?f)"
    using assms by (simp add: js_sort_def set_stable_sort)
  then have "set (js_slice 0 m (js_sort engine (entries ?f))) \<subseteq> set ?f"
    using set_js_slice[of 0 m "js_sort engine (entries ?f)"] by (simp add: set_entries)
  then have "fst ` set (js_slice 0 m (js_sort engine (entries ?f))) \<subseteq> fst ` set ?f"
    by blast
  then show ?thesis
    by (simp add: extractKeywords_def keys_foldl_count_word)
qed

lemma length_js_slice: "0 \<le> m \<Longrightarrow> int (length (js_slice 0 m xs)) \<le> m"
  by (simp add: js_slice_def clamp_index_def Let_def)


lemma set_ranked: "set (ranked ws) = set ws"
  by (auto simp: ranked_def key_order_def set_first_seen)

text \<open>
  Claim C7, as amended. On every engine whose sort rearranges its input, the keyword
  extractor returns at most the requested number of words, none of them a stop word
  and none shorter than three characters. When the text does not hold the word
  \<^verbatim>\<open>constructor\<close>, the result is the same on every engine: the first words of the
  ranking by descending frequency, where words of equal frequency stand in the order
  in which JavaScript lists property names (the array indices by value, then the other
  words by first occurrence).
\<close>

theorem keywords_ranked:
  assumes "\<And>es. set (engine es) \<subseteq> set es"
  shows "length (extractKeywords engine s (int m)) \<le> m
       \<and> list_all (\<lambda>w. w \<notin> set stopWords \<and> 2 < length w) (extractKeywords engine s (int m))
       \<and> (''constructor'' \<notin> set (keyword_words s) \<longrightarrow>
            extractKeywords engine s (int m) = take m (ranked (keyword_words s))
            \<and> set (ranked (keyword_words s)) = set (keyword_words s)
            \<and> sorted (map (\<lambda>w. - int (count_list (keyword_words s) w)) (ranked (keyword_words s)))
            \<and> (\<forall>k. filter (\<lambda>w. count_list (keyword_words s) w = k) (ranked (keyword_words s))
                   = filter (\<lambda>w. count_list (keyword_words s) w = k) (key_order (keyword_words s))))"
proof (intro conjI impI allI)
  show "length (extractKeywords engine s (int m)) \<le> m"
    using length_js_slice[of "int m"] by (simp add: extractKeywords_def)
next
  have "set (extractKeywords engine s (int m)) \<subseteq> set (keyword_words s)"
    using assms by (rule extractKeywords_words)
  then show "list_all (\<lambda>w. w \<notin> set stopWords \<and> 2 < length w) (extractKeywords engine s (int m))"
    by (auto simp: list_all_iff keyword_words_def)
next
  assume "''constructor'' \<notin> set (keyword_words s)"
  then show "extractKeywords engine s (int m) = take m (ranked (keyword_words s))"
    by (rule extractKeywords_ranked)
next
  show "set (ranked (keyword_words s)) = set (keyword_words s)" by (rule set_ranked)
next
  show "sorted (map (\<lambda>w. - int (count_list (keyword_words s) w)) (ranked (keyword_words s)))"
    unfolding ranked_def by (rule sorted_sort_key)
next
  fix k
  have "filter (\<lambda>w. - int (count_list (keyword_words s) w) = - int k) (ranked (keyword_words s))
      = filter (\<lambda>w. - int (count_list (keyword_words s) w) = - int k) (key_order (keyword_words s))"
    unfolding ranked_def by (rule sort_key_stable)
  then show "filter (\<lambda>w. count_list (keyword_words s) w = k) (ranked (keyword_words s))
      = filter (\<lambda>w. count_list (keyword_words s) w = k) (key_order (keyword_words s))"
    by simp
qed

text \<open>
  Claim C7 as stated fails on a text with a number in it: \<^verbatim>\<open>version\<close>, \<^verbatim>\<open>released\<close> and
  \<^verbatim>\<open>2024\<close> occur once each, in this order, and \<^verbatim>\<open>2024\<close> comes first in the result.
\<close>

theorem keywords_number_counterexample:
  "keyword_words ''Version 2 was released in 2024'' = [''version'', ''released'', ''2024'']
   \<and> extractKeywords stable_engine ''Version 2 was released in 2024'' 10
       = [''2024'', ''version'', ''released'']"
  by code_simp

lemma stable_engine_set: "set (stable_engine es) \<subseteq> set es"
  by (simp add: stable_engine_def set_stable_sort)

text \<open>
  The witness of claim C7: a text without numbers, on the engine whose sort is stable.
\<close>

theorem keywords_ranked_witness:
  "''constructor'' \<notin> set (keyword_words ''The index builder builds an index of the docs'')
   \<and> ranked (keyword_words ''The index builder builds an index of the docs'')
       = [''index'', ''builder'', ''builds'', ''docs'']
   \<and> extractKeywords stable_engine ''The index builder builds an index of the docs'' (int 2)
       = [''index'', ''builder'']
   \<and> length (extractKeywords stable_engine ''The index builder builds an index of the docs'' (int 2)) \<le> 2"
proof -
  have a: "''constructor'' \<notin> set (keyword_words ''The index builder builds an index of the docs'')"
    by code_simp
  have b: "ranked (keyword_words ''The index builder builds an index of the docs'')
       = [''index'', ''builder'', ''builds'', ''docs'']"
    by code_simp
  from keywords_ranked[of stable_engine "''The index builder builds an index of the docs''" 2,
      OF stable_engine_set] a b
  show ?thesis by simp
qed

section \<open>Runs evaluated\<close>

lemma body_short: "cleanMarkdownContent (snd (parseFrontmatter (intro_page short_body))) = short_body"
  by code_simp

lemma body_long: "cleanMarkdownContent (snd (parseFrontmatter (intro_page long_body))) = long_body"
  by code_simp

lemma meta_long:
  "fst (parseFrontmatter (intro_page long_body)) ''title'' = Some ''Intro''
   \<and> fst (parseFrontmatter (intro_page long_body)) ''sidebar_label'' = None
   \<and> fst (parseFrontmatter_emb (intro_page long_body)) ''title'' = Some ''Intro''"
  by code_simp

lemma pieces_long:
  "splitIntoChunks long_body 1000 200 = [long_body]
   \<and> splitIntoChunks_emb long_body 512 100 = [long_body]"
  by code_simp

lemma keywords_long:
  "extractKeywords stable_engine long_body 10
     = [''hello'', ''world'', ''test'', ''enough'', ''prose'', ''pass'', ''threshold'']"
  by code_simp

lemma lengths: "length short_body = 28 \<and> length long_body = 71"
  by code_simp

lemma id_a: "generateChunkId ''docs/a.md'' 0 = ''e0ac509b''"
  by code_simp

lemma paths_a:
  "findMarkdownFiles (one_file b) ''./docs'' = [''docs/a.md'']
   \<and> findMarkdownFiles (one_file b) ''./blog'' = []
   \<and> baseDir_of (one_file b) DEFAULT_CONFIG ''docs/a.md'' = ''./blog''
   \<and> path_relative ''/site'' ''./blog'' ''docs/a.md'' = ''../docs/a.md''
   \<and> forward_slashes ''../docs/a.md'' = ''../docs/a.md''
   \<and> slug_of ''../docs/a.md'' = ''../docs/a''"
  by (simp add: findMarkdownFiles_def one_file_def baseDir_of_def DEFAULT_CONFIG_def, code_simp)


lemma long_body_text: "long_body \<noteq> []"
  using lengths by auto

lemma process_short:
  assumes "readFileSync e p = Some (intro_page short_body)"
  shows "processFile engine e p cfg b = Inr []"
  using assms by (simp add: processFile_def case_prod_unfold body_short lengths)

lemma process_long:
  assumes "readFileSync e p = Some (intro_page long_body)"
      and "chunkSize cfg = 1000" and "chunkOverlap cfg = 200"
  shows "processFile stable_engine e p cfg b
     = Inr [\<lparr> chunk_id = generateChunkId p 0,
              source = forward_slashes (path_relative (cwd e) b p),
              slug = slug_of (path_relative (cwd e) b p),
              title = ''Intro'', content = long_body, chunkIndex = 0, totalChunks = 1,
              section_label = ''Intro'',
              keyword_list = [''hello'', ''world'', ''test'', ''enough'', ''prose'', ''pass'',
                              ''threshold''] \<rparr>]"
  using assms
  by (simp add: processFile_def case_prod_unfold body_long lengths meta_long pieces_long
        keywords_long or_else_def Let_def long_body_text)

lemma process_long_emb:
  assumes "readFileSync e p = Some (intro_page long_body)"
  shows "processFile_emb e p (config.truncate DEFAULT_CONFIG_emb) b
     = Inr [\<lparr> chunk_id = generateChunkId p 0,
              source = forward_slashes (path_relative (cwd e) b p),
              slug = slug_of (path_relative (cwd e) b p),
              title = ''Intro'', content = long_body, chunkIndex = 0, totalChunks = 1,
              embedding = JNull \<rparr>]"
  using assms body_emb[of "intro_page long_body"]
  by (simp add: processFile_emb_def case_prod_unfold body_long lengths meta_long pieces_long
        or_else_def DEFAULT_CONFIG_emb_def config.truncate_def generateChunkId_def decimal.simps
        Let_def long_body_text)

lemma run_short:
  "main stable_engine (one_file short_body) DEFAULT_CONFIG stamp
     = Inr \<lparr> version = ''1.0'', generatedAt = stamp,
             stats = \<lparr> stats_totalFiles = 1, stats_totalChunks = 0,
                       stats_docsFiles = 1, stats_blogFiles = 0 \<rparr>,
             chunks = [] \<rparr>"
proof -
  have "readFileSync (one_file short_body) ''docs/a.md'' = Some (intro_page short_body)"
    by (simp add: one_file_def)
  then have "processFile stable_engine (one_file short_body) ''docs/a.md'' DEFAULT_CONFIG ''./blog''
      = Inr []"
    by (rule process_short)
  then show ?thesis
    using paths_a[of short_body] by (simp add: main_def Let_def DEFAULT_CONFIG_def)
qed

lemma run_long:
  "main stable_engine (one_file long_body) DEFAULT_CONFIG stamp
     = Inr \<lparr> version = ''1.0'', generatedAt = stamp,
             stats = \<lparr> stats_totalFiles = 1, stats_totalChunks = 1,
                       stats_docsFiles = 1, stats_blogFiles = 0 \<rparr>,
             chunks = [\<lparr> chunk_id = ''e0ac509b'', source = ''../docs/a.md'',
                         slug = ''../docs/a'', title = ''Intro'', content = long_body,
                         chunkIndex = 0, totalChunks = 1, section_label = ''Intro'',
                         keyword_list = [''hello'', ''world'', ''test'', ''enough'', ''prose'',
                                         ''pass'', ''threshold''] \<rparr>] \<rparr>"
proof -
  have "readFileSync (one_file long_body) ''docs/a.md'' = Some (intro_page long_body)"
    by (simp add: one_file_def)
  from process_long[OF this, of DEFAULT_CONFIG "''./blog''"]
  show ?thesis
    using paths_a[of long_body] id_a
    by (simp add: main_def Let_def DEFAULT_CONFIG_def one_file_def)
qed

text \<open>
  Claim C3 as stated fails: the body of the scenario has 28 characters, fewer than
  the 50 that \<^verbatim>\<open>processFile\<close> asks for, so the index of the run has no chunk.
\<close>

theorem intro_scenario_counterexample:
  "\<not> (case main stable_engine (one_file ''Hello world. This is a test.'') DEFAULT_CONFIG stamp of
        Inl f \<Rightarrow> False
      | Inr idx \<Rightarrow>
          length (chunks idx) = 1
          \<and> list_all (\<lambda>c. title c = ''Intro'' \<and> content c = ''Hello world. This is a test.''
                          \<and> chunkIndex c = 0 \<and> totalChunks c = 1) (chunks idx))"
  using run_short by (simp add: short_body_def)

text \<open>
  Claim C3, as amended. With the body of the scenario the index has no chunk. With a
  body of 71 characters in its place, the index has exactly one chunk, whose title is
  \<^verbatim>\<open>Intro\<close>, whose content is the trimmed body, whose \<^verbatim>\<open>chunkIndex\<close> is 0 and whose
  \<^verbatim>\<open>totalChunks\<close> is 1.
\<close>

theorem intro_scenario_amended:
  "map_sum id chunks (main stable_engine (one_file ''Hello world. This is a test.'')
      DEFAULT_CONFIG stamp) = Inr []
   \<and> map_sum id (\<lambda>idx. map (\<lambda>c. (title c, content c, chunkIndex c, totalChunks c)) (chunks idx))
        (main stable_engine
           (one_file ''Hello world. This is a test. It has enough prose to pass the threshold.'')
           DEFAULT_CONFIG stamp)
       = Inr [(''Intro'',
               ''Hello world. This is a test. It has enough prose to pass the threshold.'', 0, 1)]"
  using run_short run_long by (simp add: short_body_def long_body_def)

text \<open>
  The witness of claim C4: the file of the scenario of claim C3.
\<close>

theorem short_body_no_chunks_witness:
  "readFileSync (one_file short_body) ''docs/a.md'' = Some (intro_page short_body)
   \<and> length (cleanMarkdownContent (snd (parseFrontmatter (intro_page short_body)))) < 50
   \<and> processFile stable_engine (one_file short_body) ''docs/a.md'' DEFAULT_CONFIG ''./blog'' = Inr []
   \<and> (processFile_emb (one_file short_body) ''docs/a.md'' DEFAULT_CONFIG ''./blog''
        :: failure + rat emb_chunk list) = Inr []"
proof -
  have r: "readFileSync (one_file short_body) ''docs/a.md'' = Some (intro_page short_body)"
    by (simp add: one_file_def)
  have l: "length (cleanMarkdownContent (snd (parseFrontmatter (intro_page short_body)))) < 50"
    by (simp add: body_short lengths)
  from short_body_no_chunks[OF r l] r l show ?thesis by blast
qed


lemma ids_evaluated:
  "generateChunkId ''docs/b.md'' 0 = ''85d3ebe7''
   \<and> generateChunkId ''content/blog/post.md'' 0 = ''2926615b''"
  by code_simp

lemma ids_notes:
  "generateChunkId ''docs/notes/194752.md'' 0 = ''4696b61f''
   \<and> generateChunkId ''docs/notes/4450.md'' 0 = ''4696b61f''"
  by code_simp

lemma paths_nested:
  "findMarkdownFiles nested_roots ''./content'' = [''content/blog/post.md'']
   \<and> findMarkdownFiles nested_roots ''./content/blog'' = [''content/blog/post.md'']
   \<and> startsWith ''content/blog/post.md'' (path_resolve ''/site'' ''./content'') = False
   \<and> path_relative ''/site'' ''./content/blog'' ''content/blog/post.md'' = ''post.md''
   \<and> forward_slashes ''post.md'' = ''post.md''
   \<and> slug_of ''post.md'' = ''post''"
  by code_simp

lemma paths_notes:
  "findMarkdownFiles two_notes ''./docs'' = [''docs/notes/194752.md'', ''docs/notes/4450.md'']
   \<and> findMarkdownFiles two_notes ''./blog'' = []
   \<and> startsWith ''docs/notes/194752.md'' (path_resolve ''/site'' ''./docs'') = False
   \<and> startsWith ''docs/notes/4450.md'' (path_resolve ''/site'' ''./docs'') = False
   \<and> forward_slashes (path_relative ''/site'' ''./blog'' ''docs/notes/194752.md'')
        = ''../docs/notes/194752.md''
   \<and> forward_slashes (path_relative ''/site'' ''./blog'' ''docs/notes/4450.md'')
        = ''../docs/notes/4450.md''"
  by code_simp

lemma paths_two:
  "findMarkdownFiles two_files ''./docs'' = [''docs/a.md'', ''docs/b.md'']
   \<and> findMarkdownFiles two_files ''./blog'' = []
   \<and> startsWith ''docs/a.md'' (path_resolve ''/site'' ''./docs'') = False
   \<and> startsWith ''docs/b.md'' (path_resolve ''/site'' ''./docs'') = False
   \<and> path_relative ''/site'' ''./blog'' ''docs/b.md'' = ''../docs/b.md''
   \<and> forward_slashes ''../docs/b.md'' = ''../docs/b.md''
   \<and> slug_of ''../docs/b.md'' = ''../docs/b''"
  by code_simp

text \<open>
  Claim C5 (identifiers repeat within an index). When the blog directory lies inside
  the docs directory, every blog file is found twice and its chunks stand twice in the
  index, under one identifier. And two different files can share the first 8 digits of
  the digest: chunk 0 of \<^verbatim>\<open>docs/notes/194752.md\<close> and chunk 0 of \<^verbatim>\<open>docs/notes/4450.md\<close>
  both get \<^verbatim>\<open>4696b61f\<close>.
\<close>

theorem chunk_ids_repeat:
  "map_sum id (\<lambda>idx. map chunk_id (chunks idx))
      (main stable_engine nested_roots
         (DEFAULT_CONFIG\<lparr>docsDir := ''./content'', blogDir := ''./content/blog''\<rparr>) stamp)
     = Inr [''2926615b'', ''2926615b'']
   \<and> map_sum id (\<lambda>idx. map (\<lambda>c. (source c, chunk_id c)) (chunks idx))
        (main stable_engine two_notes DEFAULT_CONFIG stamp)
     = Inr [(''../docs/notes/194752.md'', ''4696b61f''), (''../docs/notes/4450.md'', ''4696b61f'')]"
proof
  let ?cfg = "DEFAULT_CONFIG\<lparr>docsDir := ''./content'', blogDir := ''./content/blog''\<rparr>"
  have "readFileSync nested_roots ''content/blog/post.md'' = Some (intro_page long_body)"
    by (simp add: nested_roots_def)
  from process_long[OF this, of ?cfg "''./content/blog''"]
  show "map_sum id (\<lambda>idx. map chunk_id (chunks idx)) (main stable_engine nested_roots ?cfg stamp)
     = Inr [''2926615b'', ''2926615b'']"
    using paths_nested ids_evaluated
    by (simp add: main_def Let_def DEFAULT_CONFIG_def baseDir_of_def nested_roots_def)
next
  have "readFileSync two_notes ''docs/notes/194752.md'' = Some (intro_page long_body)"
    and "readFileSync two_notes ''docs/notes/4450.md'' = Some (intro_page long_body)"
    by (simp_all add: two_notes_def)
  from process_long[OF this(1), of DEFAULT_CONFIG "''./blog''"]
    process_long[OF this(2), of DEFAULT_CONFIG "''./blog''"]
  show "map_sum id (\<lambda>idx. map (\<lambda>c. (source c, chunk_id c)) (chunks idx))
        (main stable_engine two_notes DEFAULT_CONFIG stamp)
     = Inr [(''../docs/notes/194752.md'', ''4696b61f''), (''../docs/notes/4450.md'', ''4696b61f'')]"
    using paths_notes ids_notes
    by (simp add: main_def Let_def DEFAULT_CONFIG_def baseDir_of_def two_notes_def)
qed

section \<open>The runs behind the witnesses\<close>

lemma produced_two: "produced_emb two_files (config.truncate DEFAULT_CONFIG_emb) = Inr two_produced"
proof -
  have c: "cwd two_files = ''/site''"
    by (simp add: two_files_def)
  have "readFileSync two_files ''docs/a.md'' = Some (intro_page long_body)"
    and "readFileSync two_files ''docs/b.md'' = Some (intro_page long_body)"
    by (simp_all add: two_files_def)
  from process_long_emb[OF this(1), of "''./blog''"] process_long_emb[OF this(2), of "''./blog''"]
  have a: "processFile_emb two_files ''docs/a.md'' (config.truncate DEFAULT_CONFIG_emb) ''./blog''
             = Inr [two_produced ! 0]"
    and b: "processFile_emb two_files ''docs/b.md'' (config.truncate DEFAULT_CONFIG_emb) ''./blog''
             = Inr [two_produced ! 1]"
    using paths_two paths_a[of long_body] id_a ids_evaluated
    by (simp_all add: c two_produced_def)
  have d: "baseDir_of two_files (config.truncate DEFAULT_CONFIG_emb) ''docs/a.md'' = ''./blog''"
    "baseDir_of two_files (config.truncate DEFAULT_CONFIG_emb) ''docs/b.md'' = ''./blog''"
    using paths_two
    by (simp_all add: baseDir_of_def c DEFAULT_CONFIG_emb_def config.truncate_def)
  have f: "files_of two_files (config.truncate DEFAULT_CONFIG_emb) = [''docs/a.md'', ''docs/b.md'']"
    using paths_two by (simp add: files_of_def DEFAULT_CONFIG_emb_def config.truncate_def)
  show ?thesis
    by (simp add: produced_emb_def f d a b) (simp add: two_produced_def)
qed

lemma files_two: "files_of two_files (config.truncate DEFAULT_CONFIG_emb) = [''docs/a.md'', ''docs/b.md'']"
  using paths_two by (simp add: files_of_def DEFAULT_CONFIG_emb_def config.truncate_def)

lemma requests_flaky:
  "request flaky m es 0 = Inl ''ThrottlingException''
   \<and> request flaky m es (Suc 0) = Inr (JArr [JNum (1 / 2), JNum (1 / 4)])"
  by (simp add: request_def generateEmbedding_def flaky_def answer_def property_of_def)

lemma requests_mute:
  "request mute m es 0 = Inr JNull
   \<and> request mute m es (Suc 0) = Inr (JArr [JNum (1 / 2), JNum (1 / 4)])"
  by (simp add: request_def generateEmbedding_def mute_def answer_def property_of_def)

lemma upt_two: "[0..<2] = [0, Suc 0]"
  by (simp add: upt_rec)

lemma flaky_two:
  assumes "length es = 2"
  shows "filter (failed flaky m es) [0..<length es] = [0]
   \<and> filter (null_answer flaky m es) [0..<length es] = []
   \<and> filter (\<lambda>j. \<not> failed flaky m es j \<and> \<not> null_answer flaky m es j) [0..<length es] = [Suc 0]
   \<and> embedded flaky m es (Suc 0) = (es ! Suc 0)\<lparr>embedding := JArr [JNum (1 / 2), JNum (1 / 4)]\<rparr>
   \<and> answers_with_arrays flaky m es"
  by (simp add: assms upt_two failed_def null_answer_def embedded_def answers_with_arrays_def
        is_array_def requests_flaky)

lemma mute_two:
  assumes "length es = 2"
  shows "filter (failed mute m es) [0..<length es] = []
   \<and> filter (\<lambda>j. \<not> failed mute m es j \<and> \<not> null_answer mute m es j) [0..<length es] = [Suc 0]
   \<and> embedded mute m es (Suc 0) = (es ! Suc 0)\<lparr>embedding := JArr [JNum (1 / 2), JNum (1 / 4)]\<rparr>"
  by (simp add: assms upt_two failed_def null_answer_def embedded_def requests_mute)

lemma length_two: "length two_produced = 2"
  by (simp add: two_produced_def)

lemma second_of_two:
  "chunk_id (two_produced ! Suc 0) = ''85d3ebe7''"
  by (simp add: two_produced_def)

lemma run_two:
  "\<exists>idx. main_emb flaky two_files DEFAULT_CONFIG_emb stamp = Inr idx
     \<and> map chunk_id (chunks idx) = [''85d3ebe7'']"
proof -
  have f: "files_of two_files (config.truncate DEFAULT_CONFIG_emb) \<noteq> []"
    by (simp add: files_two)
  show ?thesis
    using main_emb_result[OF f produced_two, of flaky stamp] flaky_two[OF length_two]
    by (auto simp: second_of_two)
qed

lemma run_mute:
  "\<exists>idx. main_emb mute two_files DEFAULT_CONFIG_emb stamp = Inr idx
     \<and> stats_totalChunks (stats idx) = 2
     \<and> stats_failedChunks (stats idx) = 0
     \<and> map chunk_id (chunks idx) = [''85d3ebe7'']"
proof -
  have f: "files_of two_files (config.truncate DEFAULT_CONFIG_emb) \<noteq> []"
    by (simp add: files_two)
  show ?thesis
    using main_emb_result[OF f produced_two, of mute stamp] mute_two[OF length_two] length_two
    by (auto simp: second_of_two)
qed

lemma run_long_ids:
  "\<exists>idx. main stable_engine (one_file long_body) DEFAULT_CONFIG stamp = Inr idx
     \<and> map chunk_id (chunks idx) = [''e0ac509b'']"
  using run_long by simp

lemma pieces_forty:
  "splitIntoChunks long_body 40 200 = [short_body, long_body]
   \<and> splitIntoChunks_emb long_body 40 100 = [short_body, long_body]"
  by code_simp

lemma two_numbered:
  assumes "map content cs = [x, y]"
      and "map chunkIndex cs = [0 ..< length cs]"
      and "list_all (\<lambda>c. totalChunks c = length cs) cs"
  shows "length cs = 2 \<and> map chunkIndex cs = [0, 1] \<and> map totalChunks cs = [2, 2]"
proof -
  from assms(1) obtain c d where "cs = [c, d]" by (auto simp: map_eq_Cons_conv)
  then show ?thesis using assms(2,3) by (simp add: upt_two)
qed

text \<open>
  Claim C2 as stated fails when a response holds \<^verbatim>\<open>null\<close> in the field \<^verbatim>\<open>embedding\<close>.
  Two files give one chunk each; the response to the first request is
  \<^verbatim>\<open>{"embedding": null, "inputTextTokenCount": 17}\<close>. No error is thrown, so
  \<^verbatim>\<open>stats.failedChunks\<close> is 0; the first chunk is filtered out, so the index has one
  chunk of the two. No number \<open>M\<close> of failures fits both.
\<close>

theorem null_embedding_counterexample:
  "map_sum id (\<lambda>idx. (stats_totalChunks (stats idx), stats_failedChunks (stats idx),
                       map chunk_id (chunks idx)))
      (main_emb mute two_files DEFAULT_CONFIG_emb stamp) = Inr (2, 0, [''85d3ebe7''])
   \<and> \<not> (case main_emb mute two_files DEFAULT_CONFIG_emb stamp of
          Inl f \<Rightarrow> False
        | Inr idx \<Rightarrow>
            (\<exists>M. length (chunks idx) = stats_totalChunks (stats idx) - M
                \<and> stats_failedChunks (stats idx) = M))"
proof -
  from run_mute obtain idx where "main_emb mute two_files DEFAULT_CONFIG_emb stamp = Inr idx"
    and "stats_totalChunks (stats idx) = 2" and "stats_failedChunks (stats idx) = 0"
    and i: "map chunk_id (chunks idx) = [''85d3ebe7'']"
    by auto
  moreover have "length (chunks idx) = 1"
    using arg_cong[OF i, of length] by simp
  ultimately show ?thesis by simp
qed

text \<open>
  The witness of claim C2: two files of one chunk each, and a service that fails the
  first request and returns an array for the second. One chunk is left in the index
  and one failure is counted.
\<close>

theorem failed_embeddings_left_out_witness:
  "files_of two_files (config.truncate DEFAULT_CONFIG_emb) \<noteq> []
   \<and> produced_emb two_files (config.truncate DEFAULT_CONFIG_emb) = Inr two_produced
   \<and> answers_with_arrays flaky (embeddingModel DEFAULT_CONFIG_emb) two_produced
   \<and> (\<exists>idx. main_emb flaky two_files DEFAULT_CONFIG_emb stamp = Inr idx
         \<and> map chunk_id (chunks idx) = [''85d3ebe7'']
         \<and> map embedding (chunks idx) = [JArr [JNum (1 / 2), JNum (1 / 4)]]
         \<and> length (chunks idx) = 2 - 1
         \<and> stats_failedChunks (stats idx) = 1
         \<and> stats_totalChunks (stats idx) = 2
         \<and> list_all (\<lambda>c. is_array (embedding c)) (chunks idx))"
proof -
  let ?m = "embeddingModel DEFAULT_CONFIG_emb"
  have f: "files_of two_files (config.truncate DEFAULT_CONFIG_emb) \<noteq> []"
    by (simp add: files_two)
  note t = flaky_two[OF length_two, of ?m]
  from t have a: "answers_with_arrays flaky ?m two_produced" by simp
  from failed_embeddings_left_out[OF f produced_two, of flaky stamp]
  obtain idx where "main_emb flaky two_files DEFAULT_CONFIG_emb stamp = Inr idx"
    and "chunks idx = map (embedded flaky ?m two_produced)
           (filter (\<lambda>j. \<not> failed flaky ?m two_produced j \<and> \<not> null_answer flaky ?m two_produced j)
              [0..<length two_produced])"
    and "stats_failedChunks (stats idx)
           = length (filter (failed flaky ?m two_produced) [0..<length two_produced])"
    and "stats_totalChunks (stats idx) = length two_produced"
    and "answers_with_arrays flaky ?m two_produced \<longrightarrow>
           length (chunks idx) = length two_produced
             - length (filter (failed flaky ?m two_produced) [0..<length two_produced])
           \<and> list_all (\<lambda>c. is_array (embedding c)) (chunks idx)"
    by blast
  then have "main_emb flaky two_files DEFAULT_CONFIG_emb stamp = Inr idx
         \<and> map chunk_id (chunks idx) = [''85d3ebe7'']
         \<and> map embedding (chunks idx) = [JArr [JNum (1 / 2), JNum (1 / 4)]]
         \<and> length (chunks idx) = 2 - 1
         \<and> stats_failedChunks (stats idx) = 1
         \<and> stats_totalChunks (stats idx) = 2
         \<and> list_all (\<lambda>c. is_array (embedding c)) (chunks idx)"
    using a by (simp add: t second_of_two is_array_def)
  then have "\<exists>idx. main_emb flaky two_files DEFAULT_CONFIG_emb stamp = Inr idx
         \<and> map chunk_id (chunks idx) = [''85d3ebe7'']
         \<and> map embedding (chunks idx) = [JArr [JNum (1 / 2), JNum (1 / 4)]]
         \<and> length (chunks idx) = 2 - 1
         \<and> stats_failedChunks (stats idx) = 1
         \<and> stats_totalChunks (stats idx) = 2
         \<and> list_all (\<lambda>c. is_array (embedding c)) (chunks idx)"
    by (rule exI[of _ idx])
  with f produced_two a show ?thesis by (intro conjI)
qed

text \<open>
  The witness of claim C10: a document of two chunks, \<^verbatim>\<open>docs/a.md\<close> with the body of 71
  characters under \<^verbatim>\<open>--chunk-size 40\<close>, in both scripts. The embedding service fails the
  first request, so the one record of the embedding index is at position 1 of 2.
\<close>

theorem chunk_numbering_witness:
  "readFileSync (one_file long_body) ''docs/a.md'' = Some (intro_page long_body)
   \<and> (\<exists>cs. processFile stable_engine (one_file long_body) ''docs/a.md''
              (DEFAULT_CONFIG\<lparr>chunkSize := 40\<rparr>) ''./blog'' = Inr cs
          \<and> map content cs = [short_body, long_body]
          \<and> map chunkIndex cs = [0, 1] \<and> map totalChunks cs = [2, 2])
   \<and> (\<exists>cs :: rat emb_chunk list.
         processFile_emb (one_file long_body) ''docs/a.md''
           (config.truncate (DEFAULT_CONFIG_emb\<lparr>chunkSize := 40\<rparr>)) ''./blog'' = Inr cs
          \<and> map content cs = [short_body, long_body]
          \<and> map chunkIndex cs = [0, 1] \<and> map totalChunks cs = [2, 2])
   \<and> (\<exists>idx. main stable_engine (one_file long_body) (DEFAULT_CONFIG\<lparr>chunkSize := 40\<rparr>) stamp
              = Inr idx
          \<and> map chunkIndex (chunks idx) = [0, 1] \<and> map totalChunks (chunks idx) = [2, 2]
          \<and> list_all (\<lambda>c. chunkIndex c < totalChunks c) (chunks idx))
   \<and> (\<exists>eidx. main_emb flaky (one_file long_body) (DEFAULT_CONFIG_emb\<lparr>chunkSize := 40\<rparr>) stamp
              = Inr eidx
          \<and> map chunkIndex (chunks eidx) = [1] \<and> map totalChunks (chunks eidx) = [2]
          \<and> list_all (\<lambda>c. chunkIndex c < totalChunks c) (chunks eidx))"
proof -
  let ?e = "one_file long_body"
  let ?cfg = "DEFAULT_CONFIG\<lparr>chunkSize := 40\<rparr>"
  let ?ecfg = "DEFAULT_CONFIG_emb\<lparr>chunkSize := 40\<rparr>"
  let ?m = "embeddingModel ?ecfg"
  have r: "readFileSync ?e ''docs/a.md'' = Some (intro_page long_body)"
    by (simp add: one_file_def)
  have body: "cleanMarkdownContent (snd (parseFrontmatter_emb (intro_page long_body))) = long_body"
    by (simp add: body_emb body_long)
  have sizes: "chunkSize ?cfg = 40" "chunkOverlap ?cfg = 200"
    "chunkSize (config.truncate ?ecfg) = 40" "chunkOverlap (config.truncate ?ecfg) = 100"
    by (simp_all add: DEFAULT_CONFIG_def DEFAULT_CONFIG_emb_def config.truncate_def)
  have paths: "findMarkdownFiles ?e ''./docs'' = [''docs/a.md'']"
    "findMarkdownFiles ?e ''./blog'' = []"
    "startsWith ''docs/a.md'' (path_resolve ''/site'' ''./docs'') = False"
    using paths_a[of long_body] paths_two by simp_all
  have dirs: "docsDir ?cfg = ''./docs''" "blogDir ?cfg = ''./blog''"
    "docsDir ?ecfg = ''./docs''" "blogDir ?ecfg = ''./blog''"
    "docsDir (config.truncate ?ecfg) = ''./docs''" "blogDir (config.truncate ?ecfg) = ''./blog''"
    "cwd ?e = ''/site''"
    by (simp_all add: DEFAULT_CONFIG_def DEFAULT_CONFIG_emb_def config.truncate_def one_file_def)
  \<comment> \<open>the keyword script\<close>
  from chunk_numbering[THEN conjunct1, rule_format, OF r, of stable_engine ?cfg "''./blog''"]
  obtain cs where p: "processFile stable_engine ?e ''docs/a.md'' ?cfg ''./blog'' = Inr cs"
    and c1: "map content cs = [short_body, long_body]"
    and c2: "map chunkIndex cs = [0 ..< length cs]"
    and c3: "list_all (\<lambda>c. totalChunks c = length cs) cs"
    by (auto simp: body_long lengths sizes pieces_forty)
  have two: "map content cs = [short_body, long_body]"
    "map chunkIndex cs = [0, 1]" "map totalChunks cs = [2, 2]"
    using c1 two_numbered[OF c1 c2 c3] by blast+
  have k: "\<exists>cs. processFile stable_engine ?e ''docs/a.md'' ?cfg ''./blog'' = Inr cs
          \<and> map content cs = [short_body, long_body]
          \<and> map chunkIndex cs = [0, 1] \<and> map totalChunks cs = [2, 2]"
    using p two by (intro exI[of _ cs] conjI)
  have run: "main stable_engine ?e ?cfg stamp
      = Inr \<lparr> version = ''1.0'', generatedAt = stamp,
              stats = \<lparr> stats_totalFiles = 1, stats_totalChunks = length cs,
                        stats_docsFiles = 1, stats_blogFiles = 0 \<rparr>,
              chunks = cs \<rparr>"
    using p by (simp add: main_def Let_def baseDir_of_def dirs paths)
  from chunk_numbering[THEN conjunct2, THEN conjunct2, THEN conjunct1, rule_format, OF run]
  have "list_all (\<lambda>c. chunkIndex c < totalChunks c) cs" by simp
  then have i: "\<exists>idx. main stable_engine ?e ?cfg stamp = Inr idx
          \<and> map chunkIndex (chunks idx) = [0, 1] \<and> map totalChunks (chunks idx) = [2, 2]
          \<and> list_all (\<lambda>c. chunkIndex c < totalChunks c) (chunks idx)"
    using two by (simp add: run)
  \<comment> \<open>the embedding script\<close>
  from chunk_numbering[where ?'n = rat, THEN conjunct2, THEN conjunct1, rule_format, OF r,
      of "config.truncate ?ecfg" "''./blog''"]
  obtain es :: "rat emb_chunk list"
    where q: "processFile_emb ?e ''docs/a.md'' (config.truncate ?ecfg) ''./blog'' = Inr es"
    and e1: "map content es = [short_body, long_body]"
    and e2: "map chunkIndex es = [0 ..< length es]"
    and e3: "list_all (\<lambda>c. totalChunks c = length es) es"
    by (auto simp: body lengths sizes pieces_forty)
  have etwo: "length es = 2" "map content es = [short_body, long_body]"
    "map chunkIndex es = [0, 1]" "map totalChunks es = [2, 2]"
    using e1 two_numbered[OF e1 e2 e3] by blast+
  have m: "\<exists>cs :: rat emb_chunk list.
         processFile_emb ?e ''docs/a.md'' (config.truncate ?ecfg) ''./blog'' = Inr cs
          \<and> map content cs = [short_body, long_body]
          \<and> map chunkIndex cs = [0, 1] \<and> map totalChunks cs = [2, 2]"
    using q etwo by (intro exI[of _ es] conjI)
  have f: "files_of ?e (config.truncate ?ecfg) \<noteq> []"
    by (simp add: files_of_def dirs paths)
  have produced: "produced_emb ?e (config.truncate ?ecfg) = Inr es"
    using q by (simp add: produced_emb_def files_of_def baseDir_of_def dirs paths)
  from main_emb_result[OF f produced, of flaky stamp] flaky_two[OF etwo(1), of ?m]
  obtain eidx where erun: "main_emb flaky ?e ?ecfg stamp = Inr eidx"
    and kept: "chunks eidx = [(es ! Suc 0)\<lparr>embedding := JArr [JNum (1 / 2), JNum (1 / 4)]\<rparr>]"
    by auto
  from etwo(3,4) obtain c d where "es = [c, d]" "chunkIndex d = 1" "totalChunks d = 2"
    by (auto simp: map_eq_Cons_conv)
  then have second: "map chunkIndex (chunks eidx) = [1]" "map totalChunks (chunks eidx) = [2]"
    by (simp_all add: kept)
  from chunk_numbering[THEN conjunct2, THEN conjunct2, THEN conjunct2, rule_format, OF erun]
  have "list_all (\<lambda>c. chunkIndex c < totalChunks c) (chunks eidx)" .
  with erun second have j: "\<exists>eidx. main_emb flaky ?e ?ecfg stamp = Inr eidx
          \<and> map chunkIndex (chunks eidx) = [1] \<and> map totalChunks (chunks eidx) = [2]
          \<and> list_all (\<lambda>c. chunkIndex c < totalChunks c) (chunks eidx)"
    by (intro exI[of _ eidx] conjI)
  from r k m i j show ?thesis by (intro conjI)
qed

text \<open>
  The witness of claim C6: one file under the keyword script, two files under the
  embedding script.
\<close>

theorem chunk_ids_determined_witness:
  "processFile stable_engine (one_file long_body) ''docs/a.md'' DEFAULT_CONFIG ''./blog''
      = Inr [\<lparr> chunk_id = ''e0ac509b'', source = ''../docs/a.md'', slug = ''../docs/a'',
               title = ''Intro'', content = long_body, chunkIndex = 0, totalChunks = 1,
               section_label = ''Intro'',
               keyword_list = [''hello'', ''world'', ''test'', ''enough'', ''prose'', ''pass'',
                               ''threshold''] \<rparr>]
   \<and> [''e0ac509b''] = map (generateChunkId ''docs/a.md'') [0..<1]
   \<and> is_id ''e0ac509b''
   \<and> (\<exists>idx. main stable_engine (one_file long_body) DEFAULT_CONFIG stamp = Inr idx
          \<and> map chunk_id (chunks idx) = [''e0ac509b'']
          \<and> list_all (\<lambda>c. is_id (chunk_id c)) (chunks idx))
   \<and> (\<exists>eidx. main_emb flaky two_files DEFAULT_CONFIG_emb stamp = Inr eidx
          \<and> map chunk_id (chunks eidx) = [''85d3ebe7'']
          \<and> list_all (\<lambda>c. is_id (chunk_id c)) (chunks eidx))"
proof -
  let ?e = "one_file long_body"
  let ?rec = "\<lparr> chunk_id = ''e0ac509b'', source = ''../docs/a.md'', slug = ''../docs/a'',
               title = ''Intro'', content = long_body, chunkIndex = 0, totalChunks = 1,
               section_label = ''Intro'',
               keyword_list = [''hello'', ''world'', ''test'', ''enough'', ''prose'', ''pass'',
                               ''threshold''] \<rparr>"
  have r: "readFileSync ?e ''docs/a.md'' = Some (intro_page long_body)"
    by (simp add: one_file_def)
  have p: "processFile stable_engine ?e ''docs/a.md'' DEFAULT_CONFIG ''./blog'' = Inr [?rec]"
    using process_long[OF r, of DEFAULT_CONFIG "''./blog''"] paths_a[of long_body] id_a
    by (simp add: DEFAULT_CONFIG_def one_file_def)
  obtain idx where i: "main stable_engine ?e DEFAULT_CONFIG stamp = Inr idx"
    and i1: "map chunk_id (chunks idx) = [''e0ac509b'']"
    using run_long_ids by auto
  obtain eidx where e: "main_emb flaky two_files DEFAULT_CONFIG_emb stamp = Inr eidx"
    and e1: "map chunk_id (chunks eidx) = [''85d3ebe7'']"
    using run_two by auto
  note a = chunk_ids_determined[of "''docs/a.md''" 0 stable_engine ?e DEFAULT_CONFIG "''./blog''"
      "[?rec]" "[] :: rat emb_chunk list" stamp idx flaky DEFAULT_CONFIG_emb eidx stamp]
  note c = chunk_ids_determined[of "''docs/a.md''" 0 stable_engine two_files DEFAULT_CONFIG
      "''./blog''" "[?rec]" "[] :: rat emb_chunk list" stamp idx flaky DEFAULT_CONFIG_emb eidx
      stamp]
  have k: "[''e0ac509b''] = map (generateChunkId ''docs/a.md'') [0..<1]"
    using a p by simp
  have h: "is_id ''e0ac509b''"
    using a id_a by simp
  have "list_all (\<lambda>c. is_id (chunk_id c)) (chunks idx)"
    using a i by simp
  with i i1 have n: "\<exists>idx. main stable_engine ?e DEFAULT_CONFIG stamp = Inr idx
          \<and> map chunk_id (chunks idx) = [''e0ac509b'']
          \<and> list_all (\<lambda>c. is_id (chunk_id c)) (chunks idx)"
    by (intro exI[of _ idx] conjI)
  have "list_all (\<lambda>c. is_id (chunk_id c)) (chunks eidx)"
    using c e by simp
  with e e1 have j: "\<exists>eidx. main_emb flaky two_files DEFAULT_CONFIG_emb stamp = Inr eidx
          \<and> map chunk_id (chunks eidx) = [''85d3ebe7'']
          \<and> list_all (\<lambda>c. is_id (chunk_id c)) (chunks eidx)"
    by (intro exI[of _ eidx] conjI)
  from p k h n j show ?thesis by (intro conjI)
qed

end
